theory Spec2Isabelle
  imports Main
begin

section \<open>Python values, exceptions and dictionaries\<close>

text \<open>
  The decorators of \<^verbatim>\<open>hamilton/function_modifiers/expanders.py\<close> work on dynamically
  typed values. \<open>pyval\<close> is the universe of the values that flow through them: scalars,
  tuples, lists, dictionaries (insertion-ordered association lists) and a pandas
  DataFrame reduced to what the decorators look at: a row count and an ordered list of
  labelled columns. \<open>PIndex\<close> is the object \<^verbatim>\<open>df.columns\<close>, \<open>PSeries\<close> one column.
\<close>

datatype pyval =
    PNone
  | PBool bool
  | PInt int
  | PStr string
  | PTuple "pyval list"
  | PList "pyval list"
  | PDict "(pyval \<times> pyval) list"
  | PFrame nat "(pyval \<times> pyval list) list"
  | PIndex "pyval list"
  | PSeries "pyval list"

text \<open>
  An f-string is a sequence of literal text and interpolated values; the message of an
  exception keeps the interpolated values themselves instead of their rendering by
  \<^verbatim>\<open>str()\<close>.
\<close>

datatype fpart = Text string | Interp pyval

text \<open>
  The exceptions the decorators raise or let through. \<open>Unmodelled\<close> is not a Python
  exception: it marks an input on which the behaviour of the Python library lies
  outside this model (it is named at each place where it is returned).
\<close>

datatype error =
    InvalidDecoratorException "fpart list"
  | KeyError pyval
  | ValueError
  | TypeError
  | AssertionError
  | NotImplementedError
  | Unmodelled

fun is_InvalidDecoratorException :: "error \<Rightarrow> bool" where
  "is_InvalidDecoratorException (InvalidDecoratorException msg) = True"
| "is_InvalidDecoratorException e = False"

type_synonym kwargs = "(string \<times> pyval) list"

text \<open>A callable takes positional arguments and keyword arguments.\<close>

type_synonym callable = "pyval list \<Rightarrow> kwargs \<Rightarrow> error + pyval"

subsection \<open>Dictionaries\<close>

text \<open>
  A Python dict keeps insertion order and has no duplicate keys. \<^verbatim>\<open>d[k] = v\<close> overwrites
  in place when the key is there and appends otherwise; \<^verbatim>\<open>d.pop(k)\<close> raises KeyError on
  a missing key; \<^verbatim>\<open>{**a, **b}\<close> stores the items of \<open>b\<close> into a copy of \<open>a\<close>.
\<close>

definition keys :: "('k \<times> 'v) list \<Rightarrow> 'k list" where
  "keys d = map fst d"

fun dict_set :: "('k \<times> 'v) list \<Rightarrow> 'k \<Rightarrow> 'v \<Rightarrow> ('k \<times> 'v) list" where
  "dict_set [] k v = [(k, v)]"
| "dict_set ((k', v') # d) k v =
     (if k' = k then (k', v) # d else (k', v') # dict_set d k v)"

definition dict_del :: "('k \<times> 'v) list \<Rightarrow> 'k \<Rightarrow> ('k \<times> 'v) list" where
  "dict_del d k = filter (\<lambda>kv. fst kv \<noteq> k) d"

definition dict_pop :: "kwargs \<Rightarrow> string \<Rightarrow> error + (pyval \<times> kwargs)" where
  "dict_pop d k =
     (case map_of d k of
        None \<Rightarrow> Inl (KeyError (PStr k))
      | Some v \<Rightarrow> Inr (v, dict_del d k))"

definition dict_merge :: "('k \<times> 'v) list \<Rightarrow> ('k \<times> 'v) list \<Rightarrow> ('k \<times> 'v) list" where
  "dict_merge a b = fold (\<lambda>kv d. dict_set d (fst kv) (snd kv)) b a"

definition dict_getitem :: "kwargs \<Rightarrow> string \<Rightarrow> error + pyval" where
  "dict_getitem d k =
     (case map_of d k of None \<Rightarrow> Inl (KeyError (PStr k)) | Some v \<Rightarrow> Inr v)"

subsection \<open>Rendering values: \<^verbatim>\<open>str()\<close>\<close>

text \<open>The decimal digit of a number below ten.\<close>

definition digit :: "nat \<Rightarrow> char" where
  "digit n = ''0123456789'' ! n"

function str_nat :: "nat \<Rightarrow> string" where
  "str_nat n = (if n < 10 then [digit n] else str_nat (n div 10) @ [digit (n mod 10)])"
  by pat_completeness auto
termination
  by (relation "measure id") auto

declare str_nat.simps [simp del]

definition str_int :: "int \<Rightarrow> string" where
  "str_int i = (if i < 0 then CHR ''-'' # str_nat (nat (- i)) else str_nat (nat i))"

text \<open>
  \<^verbatim>\<open>format(v, '')\<close>, which is \<^verbatim>\<open>str(v)\<close> for the scalars. The rendering of containers
  (with the \<^verbatim>\<open>repr\<close> of their elements) and of pandas objects is outside the model.
\<close>

fun py_str :: "pyval \<Rightarrow> error + string" where
  "py_str PNone = Inr ''None''"
| "py_str (PBool b) = Inr (if b then ''True'' else ''False'')"
| "py_str (PInt i) = Inr (str_int i)"
| "py_str (PStr s) = Inr s"
| "py_str v = Inl Unmodelled"

subsection \<open>\<^verbatim>\<open>str.format_map\<close>\<close>

text \<open>
  CPython's format-string scanner. Literal text runs up to the next brace; a doubled
  brace is an escaped brace; a single closing brace, or an opening brace at the end of
  the string, is a ValueError. A replacement field runs up to its closing brace; an
  opening brace inside the field name is a ValueError, as is a field that is not closed.
  A field name that is empty or a number is a positional field, which \<^verbatim>\<open>format_map\<close>
  refuses with a ValueError. Every other field name is looked up in the mapping with
  \<^verbatim>\<open>mapping[name]\<close> and the value is rendered with the empty format specification.
  Conversions (\<^verbatim>\<open>!r\<close>), format specifications (\<^verbatim>\<open>:>10\<close>), attribute access (\<^verbatim>\<open>.attr\<close>) and
  indexing (\<^verbatim>\<open>[0]\<close>) are outside the model (\<open>Unmodelled\<close>), and strings are ASCII.
\<close>

datatype scan = Closed string string | Unclosed | NestedOpen | Special

fun scan_field :: "string \<Rightarrow> scan" where
  "scan_field [] = Unclosed"
| "scan_field (c # cs) =
     (if c = CHR ''}'' then Closed [] cs
      else if c = CHR ''{'' then NestedOpen
      else if c = CHR ''['' \<or> c = CHR ''!'' \<or> c = CHR '':'' then Special
      else (case scan_field cs of
              Closed n r \<Rightarrow> Closed (c # n) r
            | Unclosed \<Rightarrow> Unclosed
            | NestedOpen \<Rightarrow> NestedOpen
            | Special \<Rightarrow> Special))"

definition is_digit :: "char \<Rightarrow> bool" where
  "is_digit c = (c \<in> set ''0123456789'')"

text \<open>
  The mapping passed to \<^verbatim>\<open>format_map\<close> is the \<^verbatim>\<open>IdentityDict\<close> of \<^verbatim>\<open>format_doc_string\<close>:
  its \<^verbatim>\<open>__missing__\<close> returns the key itself, so a lookup never raises KeyError.
\<close>

definition IdentityDict_getitem :: "kwargs \<Rightarrow> string \<Rightarrow> pyval" where
  "IdentityDict_getitem m key = (case map_of m key of None \<Rightarrow> PStr key | Some v \<Rightarrow> v)"

definition render_field :: "kwargs \<Rightarrow> string \<Rightarrow> error + string" where
  "render_field m field_name =
     (let first = takeWhile (\<lambda>c. c \<noteq> CHR ''.'') field_name in
      if first = [] \<or> (\<forall>c \<in> set first. is_digit c) then Inl ValueError
      else if CHR ''.'' \<in> set field_name then Inl Unmodelled
      else py_str (IdentityDict_getitem m field_name))"

function format_map :: "string \<Rightarrow> kwargs \<Rightarrow> error + string" where
  "format_map [] m = Inr []"
| "format_map (c # cs) m =
     (if c = CHR ''}'' then
        (case cs of
           [] \<Rightarrow> Inl ValueError
         | c' # cs' \<Rightarrow>
             if c' = CHR ''}'' then
               (case format_map cs' m of Inl e \<Rightarrow> Inl e | Inr s \<Rightarrow> Inr (CHR ''}'' # s))
             else Inl ValueError)
      else if c = CHR ''{'' then
        (case cs of
           [] \<Rightarrow> Inl ValueError
         | c' # cs' \<Rightarrow>
             if c' = CHR ''{'' then
               (case format_map cs' m of Inl e \<Rightarrow> Inl e | Inr s \<Rightarrow> Inr (CHR ''{'' # s))
             else
               (case scan_field cs of
                  Unclosed \<Rightarrow> Inl ValueError
                | NestedOpen \<Rightarrow> Inl ValueError
                | Special \<Rightarrow> Inl Unmodelled
                | Closed field_name rest \<Rightarrow>
                    (case render_field m field_name of
                       Inl e \<Rightarrow> Inl e
                     | Inr v \<Rightarrow>
                         (case format_map rest m of
                            Inl e \<Rightarrow> Inl e
                          | Inr s \<Rightarrow> Inr (v @ s)))))
      else
        (case format_map cs m of Inl e \<Rightarrow> Inl e | Inr s \<Rightarrow> Inr (c # s)))"
  by pat_completeness auto
termination
proof -
  have shorter: "length r < length cs" if "scan_field cs = Closed n r" for cs n r
    using that by (induction cs arbitrary: n) (auto split: if_splits scan.splits)
  show ?thesis
    by (relation "measure (\<lambda>(s, m). length s)")
      (auto simp del: scan_field.simps dest!: shorter)
qed

section \<open>Dependencies, functions and nodes\<close>

text \<open>
  Modelled from the spec: the module \<^verbatim>\<open>hamilton.function_modifiers.dependencies\<close> is
  imported by \<^verbatim>\<open>expanders.py\<close>, not defined in it. A dependency is either a literal (\<^verbatim>\<open>value(v)\<close>, with the
  attribute \<^verbatim>\<open>.value\<close>) or a reference to the output of another node (\<^verbatim>\<open>source(name)\<close>,
  with the attribute \<^verbatim>\<open>.source\<close>).
\<close>

datatype ParametrizedDependencySource = LITERAL | UPSTREAM

datatype ParametrizedDependency = LiteralDependency pyval | UpstreamDependency string

fun get_dependency_type :: "ParametrizedDependency \<Rightarrow> ParametrizedDependencySource" where
  "get_dependency_type (LiteralDependency v) = LITERAL"
| "get_dependency_type (UpstreamDependency s) = UPSTREAM"

text \<open>Declared types, as far as the decorators tell them apart.\<close>

datatype pytype =
    TAny | TInt | TFloat | TStr | TBool
  | TDict
  | TGenericDict pytype pytype
  | TDataFrame
  | TSeries
  | TClass string

text \<open>
  What the decorators read of the decorated function: its docstring, its module and
  name, the parameter names of its signature and the function itself.
\<close>

record pyfunction =
  fn_doc :: "string option"
  fn_module :: string
  fn_name :: string
  fn_parameters :: "string list"
  fn_call :: callable

text \<open>
  Modelled from the spec: \<^verbatim>\<open>hamilton.node.Node\<close> is imported by \<^verbatim>\<open>expanders.py\<close>, not
  defined in it. A node has a name, a declared type, a documentation string, a callable, a mapping from input
  name to input type and a tag mapping; \<^verbatim>\<open>copy_with(callabl=f)\<close> replaces only the
  callable.
\<close>

record node =
  name :: string
  node_type :: pytype
  documentation :: "string option"
  callable :: callable
  input_types :: "(string \<times> pytype) list"
  tags :: "(string \<times> pyval) list"

definition copy_with :: "node \<Rightarrow> callable \<Rightarrow> node" where
  "copy_with node' callabl = node'\<lparr>callable := callabl\<rparr>"

text \<open>\<^verbatim>\<open>functools.partial(f, **keywords)\<close>: the keywords of the call override the stored ones.\<close>

definition partial :: "callable \<Rightarrow> kwargs \<Rightarrow> callable" where
  "partial f keywords args kwargs = f args (dict_merge keywords kwargs)"

section \<open>\<^verbatim>\<open>parameterize\<close>\<close>

text \<open>
  A value of a mapping handed to \<^verbatim>\<open>parameterize\<close> is a dependency or some other Python
  value (\<^verbatim>\<open>isinstance(val, ParametrizedDependency)\<close> tells them apart); a keyword argument
  is a mapping, or a tuple of a mapping and a docstring
  (\<^verbatim>\<open>isinstance(value, tuple)\<close>).
\<close>

datatype mapping_value = Dep ParametrizedDependency | NotDep pyval

datatype parametrization_arg =
    Assignments "(string \<times> mapping_value) list"
  | WithDocstring "(string \<times> mapping_value) list" string

fun assignments_of :: "parametrization_arg \<Rightarrow> (string \<times> mapping_value) list" where
  "assignments_of (Assignments mapping) = mapping"
| "assignments_of (WithDocstring mapping doc) = mapping"

record parameterize =
  parametrization :: "(string \<times> (string \<times> ParametrizedDependency) list) list"
  specified_docstrings :: "(string \<times> string) list"

definition RESERVED_KWARG :: string where
  "RESERVED_KWARG = ''output_name''"

definition bad_values_of :: "(string \<times> parametrization_arg) list \<Rightarrow> pyval list" where
  "bad_values_of kw =
     concat (map (\<lambda>(assigned_output, arg).
       [val. (parameter, NotDep val) \<leftarrow> assignments_of arg]) kw)"

definition parameterize_init :: "(string \<times> parametrization_arg) list \<Rightarrow> error + parameterize" where
  "parameterize_init kw =
     (let bad_values = bad_values_of kw in
      if bad_values \<noteq> [] then
        Inl (InvalidDecoratorException
          [Text ''@parameterize must specify a dependency type -- either source() or value().The following are not allowed: '',
           Interp (PList bad_values), Text ''.''])
      else
        Inr \<lparr>parametrization =
               map (\<lambda>(key, arg). (key, [(parameter, d). (parameter, Dep d) \<leftarrow> assignments_of arg])) kw,
             specified_docstrings = [(key, doc). (key, WithDocstring mapping doc) \<leftarrow> kw]\<rparr>)"

definition upstream_sources ::
    "(string \<times> ParametrizedDependency) list \<Rightarrow> (string \<times> string) list" where
  "upstream_sources parametrization' =
     [(parameter, s). (parameter, UpstreamDependency s) \<leftarrow> parametrization']"

definition literal_values ::
    "(string \<times> ParametrizedDependency) list \<Rightarrow> (string \<times> pyval) list" where
  "literal_values parametrization' =
     [(parameter, v). (parameter, LiteralDependency v) \<leftarrow> parametrization']"

definition format_doc_string :: "parameterize \<Rightarrow> string option \<Rightarrow> string \<Rightarrow> error + string option" where
  "format_doc_string self doc output_name =
     (case map_of (specified_docstrings self) output_name of
        Some specified \<Rightarrow> Inr (Some specified)
      | None \<Rightarrow>
          (case doc of
             None \<Rightarrow> Inr None
           | Some template \<Rightarrow>
               (case map_of (parametrization self) output_name of
                  None \<Rightarrow> Inl (KeyError (PStr output_name))
                | Some parametrization' \<Rightarrow>
                    (let upstream_dependencies =
                           map (\<lambda>(parameter, s). (parameter, PStr s)) (upstream_sources parametrization');
                         literal_dependencies = literal_values parametrization';
                         merged = dict_merge upstream_dependencies literal_dependencies
                     in if RESERVED_KWARG \<in> set (keys merged) then Inl TypeError
                        else (case format_map template ((RESERVED_KWARG, PStr output_name) # merged) of
                                Inl e \<Rightarrow> Inl e
                              | Inr s \<Rightarrow> Inr (Some s))))))"

fun join :: "string \<Rightarrow> string list \<Rightarrow> string" where
  "join sep [] = []"
| "join sep [x] = x"
| "join sep (x # y # ys) = x @ sep @ join sep (y # ys)"

fun format_all :: "parameterize \<Rightarrow> string option \<Rightarrow> string list \<Rightarrow> error + unit" where
  "format_all self doc [] = Inr ()"
| "format_all self doc (output_name # rest) =
     (case format_doc_string self doc output_name of
        Inl e \<Rightarrow> Inl e
      | Inr d \<Rightarrow> format_all self doc rest)"

text \<open>
  \<^verbatim>\<open>validate\<close>. The names of the missing parameters are collected in a Python set, whose
  iteration order is not specified; the message lists them in the order of their first
  occurrence.
\<close>

definition parameterize_validate :: "parameterize \<Rightarrow> pyfunction \<Rightarrow> error + unit" where
  "parameterize_validate self fn =
     (case format_all self (fn_doc fn) (keys (parametrization self)) of
        Inl (KeyError k) \<Rightarrow>
          Inl (InvalidDecoratorException
            [Text ''Function docstring templating is incorrect. Please fix up the docstring '',
             Interp (PStr (fn_module fn)), Text ''.'', Interp (PStr (fn_name fn)), Text ''.''])
      | Inl e \<Rightarrow> Inl e
      | Inr u \<Rightarrow>
          if RESERVED_KWARG \<in> set (fn_parameters fn) then
            Inl (InvalidDecoratorException
              [Text ''Error function '', Interp (PStr (fn_module fn)), Text ''.'',
               Interp (PStr (fn_name fn)), Text '' cannot have `'', Interp (PStr RESERVED_KWARG),
               Text ''` as a parameter it is reserved.''])
          else
            (let missing_parameters =
                   remdups (concat (map (\<lambda>(output_name, mapping).
                     filter (\<lambda>p. p \<notin> set (fn_parameters fn)) (keys mapping)) (parametrization self)))
             in if missing_parameters \<noteq> [] then
                  Inl (InvalidDecoratorException
                    [Text ''Parametrization is invalid: the following parameters don't appear in the function itself: '',
                     Interp (PStr (join '', '' missing_parameters))])
                else Inr ()))"

text \<open>
  \<^verbatim>\<open>replacement_function\<close>: every upstream dependency is popped from the keyword
  arguments under the referenced name and stored under the parameter name, then every
  literal is stored under its parameter name, then the callable of the node is called.
  \<^verbatim>\<open>upstream_dependencies\<close> and \<^verbatim>\<open>literal_dependencies\<close> are keyword-only parameters
  with defaults: a keyword argument with one of these two names would rebind them, which
  is outside the model.
\<close>

fun rename_upstream :: "(string \<times> string) list \<Rightarrow> kwargs \<Rightarrow> error + kwargs" where
  "rename_upstream [] kwargs = Inr kwargs"
| "rename_upstream ((dependency, replacement_source) # rest) kwargs =
     (case dict_pop kwargs replacement_source of
        Inl e \<Rightarrow> Inl e
      | Inr (v, kwargs') \<Rightarrow> rename_upstream rest (dict_set kwargs' dependency v))"

definition inject_literals :: "(string \<times> pyval) list \<Rightarrow> kwargs \<Rightarrow> kwargs" where
  "inject_literals literal_dependencies kwargs =
     fold (\<lambda>(dependency, v) kw. dict_set kw dependency v) literal_dependencies kwargs"

definition replacement_function ::
    "callable \<Rightarrow> (string \<times> string) list \<Rightarrow> (string \<times> pyval) list \<Rightarrow> callable" where
  "replacement_function node_callable upstream_dependencies literal_dependencies args kwargs =
     (if ''upstream_dependencies'' \<in> set (keys kwargs) \<or> ''literal_dependencies'' \<in> set (keys kwargs)
      then Inl Unmodelled
      else (case rename_upstream upstream_dependencies kwargs of
              Inl e \<Rightarrow> Inl e
            | Inr kwargs' \<Rightarrow> node_callable args (inject_literals literal_dependencies kwargs')))"

fun new_input_types ::
    "(string \<times> string) list \<Rightarrow> (string \<times> pyval) list \<Rightarrow> (string \<times> pytype) list
       \<Rightarrow> (string \<times> pytype) list \<Rightarrow> (string \<times> pytype) list" where
  "new_input_types upstream_dependencies literal_dependencies [] acc = acc"
| "new_input_types upstream_dependencies literal_dependencies ((param, val) # rest) acc =
     new_input_types upstream_dependencies literal_dependencies rest
       (case map_of upstream_dependencies param of
          Some replacement_source \<Rightarrow> dict_set acc replacement_source val
        | None \<Rightarrow>
            if param \<notin> set (keys literal_dependencies) then dict_set acc param val else acc)"

definition parameterize_node ::
    "parameterize \<Rightarrow> node \<Rightarrow> pyfunction \<Rightarrow> string \<Rightarrow> (string \<times> ParametrizedDependency) list
       \<Rightarrow> error + node" where
  "parameterize_node self node' fn output_node parametrization' =
     (case format_doc_string self (fn_doc fn) output_node of
        Inl e \<Rightarrow> Inl e
      | Inr docstring \<Rightarrow>
          (let upstream_dependencies = upstream_sources parametrization';
               literal_dependencies = literal_values parametrization'
           in Inr \<lparr>name = output_node,
                   node_type = node_type node',
                   documentation = docstring,
                   callable = partial
                     (replacement_function (callable node') upstream_dependencies literal_dependencies)
                     literal_dependencies,
                   input_types =
                     new_input_types upstream_dependencies literal_dependencies (input_types node') [],
                   tags = tags node'\<rparr>))"

fun parameterize_nodes ::
    "parameterize \<Rightarrow> node \<Rightarrow> pyfunction
       \<Rightarrow> (string \<times> (string \<times> ParametrizedDependency) list) list \<Rightarrow> error + node list" where
  "parameterize_nodes self node' fn [] = Inr []"
| "parameterize_nodes self node' fn ((output_node, parametrization') # rest) =
     (case parameterize_node self node' fn output_node parametrization' of
        Inl e \<Rightarrow> Inl e
      | Inr n \<Rightarrow>
          (case parameterize_nodes self node' fn rest of
             Inl e \<Rightarrow> Inl e
           | Inr ns \<Rightarrow> Inr (n # ns)))"

definition parameterize_expand_node ::
    "parameterize \<Rightarrow> node \<Rightarrow> kwargs \<Rightarrow> pyfunction \<Rightarrow> error + node list" where
  "parameterize_expand_node self node' config fn =
     parameterize_nodes self node' fn (parametrization self)"

section \<open>\<^verbatim>\<open>parameterize_values\<close> and \<^verbatim>\<open>parameterize_sources\<close>\<close>

fun is_tuple :: "pyval \<Rightarrow> bool" where
  "is_tuple (PTuple xs) = True"
| "is_tuple v = False"

text \<open>
  The dict comprehension of \<^verbatim>\<open>parameterize_values.__init__\<close>: every key is unpacked
  into \<^verbatim>\<open>(output, documentation)\<close> (a ValueError when it has not two elements). The
  documentation is a string by the annotation of the constructor; another value would
  be stored as it is, which is outside the model.
\<close>

fun values_parametrization ::
    "string \<Rightarrow> (pyval \<times> pyval) list \<Rightarrow> (pyval \<times> parametrization_arg) list
       \<Rightarrow> error + (pyval \<times> parametrization_arg) list" where
  "values_parametrization parameter [] acc = Inr acc"
| "values_parametrization parameter ((key, literal_value) # rest) acc =
     (case key of
        PTuple [output, PStr doc] \<Rightarrow>
          values_parametrization parameter rest
            (dict_set acc output
               (WithDocstring [(parameter, Dep (LiteralDependency literal_value))] doc))
      | PTuple [output, doc] \<Rightarrow> Inl Unmodelled
      | _ \<Rightarrow> Inl ValueError)"

text \<open>\<^verbatim>\<open>f(**d)\<close> raises TypeError unless every key of \<open>d\<close> is a string.\<close>

fun keyword_arguments :: "(pyval \<times> 'a) list \<Rightarrow> error + (string \<times> 'a) list" where
  "keyword_arguments [] = Inr []"
| "keyword_arguments ((PStr k, v) # rest) =
     (case keyword_arguments rest of Inl e \<Rightarrow> Inl e | Inr kw \<Rightarrow> Inr ((k, v) # kw))"
| "keyword_arguments ((k, v) # rest) = Inl TypeError"

definition parameterize_values_init ::
    "string \<Rightarrow> (pyval \<times> pyval) list \<Rightarrow> error + parameterize" where
  "parameterize_values_init parameter assigned_output =
     (case find (\<lambda>key. \<not> is_tuple key) (keys assigned_output) of
        Some bad_key \<Rightarrow>
          Inl (InvalidDecoratorException
            [Text ''assigned_output key is incorrect: '', Interp bad_key,
             Text ''. The parameterized decorator needs a dict of [name, doc string] -> value to function.''])
      | None \<Rightarrow>
          (case values_parametrization parameter assigned_output [] of
             Inl e \<Rightarrow> Inl e
           | Inr d \<Rightarrow>
               (case keyword_arguments d of
                  Inl e \<Rightarrow> Inl e
                | Inr kw \<Rightarrow> parameterize_init kw)))"

text \<open>
  \<^verbatim>\<open>parameterize_sources.__init__\<close>: a mapping is a dict of parameter name to upstream
  node name, or \<^verbatim>\<open>None\<close>; \<^verbatim>\<open>not mappings\<close> holds for \<^verbatim>\<open>None\<close> and for the empty dict.
\<close>

fun sources_parametrization ::
    "(string \<times> (string \<times> string) list option) list \<Rightarrow> (string \<times> parametrization_arg) list" where
  "sources_parametrization [] = []"
| "sources_parametrization ((output, None) # rest) = sources_parametrization rest"
| "sources_parametrization ((output, Some mapping) # rest) =
     (output, Assignments (map (\<lambda>(parameter, upstream_node).
        (parameter, Dep (UpstreamDependency upstream_node))) mapping))
       # sources_parametrization rest"

definition parameterize_sources_init ::
    "(string \<times> (string \<times> string) list option) list \<Rightarrow> error + parameterize" where
  "parameterize_sources_init parameterization =
     (if parameterization = [] then Inl ValueError
      else if \<exists>(output, mappings) \<in> set parameterization. mappings = None \<or> mappings = Some []
        then Inl ValueError
      else parameterize_init (sources_parametrization parameterization))"

section \<open>Tables and the capability provider\<close>

text \<open>
  \<^verbatim>\<open>x in container\<close> for the two containers of the extractors: the column labels of a
  DataFrame, the keys of a dict. Both hash \<open>x\<close> first (TypeError on a list or a dict).
\<close>

fun hashable :: "pyval \<Rightarrow> bool" where
  "hashable PNone = True"
| "hashable (PBool b) = True"
| "hashable (PInt i) = True"
| "hashable (PStr s) = True"
| "hashable (PTuple xs) = (\<forall>x \<in> set xs. hashable x)"
| "hashable v = False"

fun py_contains :: "pyval \<Rightarrow> pyval \<Rightarrow> error + bool" where
  "py_contains (PFrame n cols) x =
     (if hashable x then Inr (x \<in> set (keys cols)) else Inl TypeError)"
| "py_contains (PDict items) x =
     (if hashable x then Inr (x \<in> set (keys items)) else Inl TypeError)"
| "py_contains container x = Inl Unmodelled"

text \<open>\<^verbatim>\<open>df.columns\<close> and \<^verbatim>\<open>df.columns = labels\<close> (a ValueError on a length mismatch).\<close>

fun get_columns :: "pyval \<Rightarrow> error + pyval" where
  "get_columns (PFrame n cols) = Inr (PIndex (keys cols))"
| "get_columns v = Inl Unmodelled"

fun set_columns :: "pyval \<Rightarrow> pyval \<Rightarrow> error + pyval" where
  "set_columns (PFrame n cols) (PTuple labels) =
     (if length labels = length cols then Inr (PFrame n (zip labels (map snd cols)))
      else Inl ValueError)"
| "set_columns df labels = Inl Unmodelled"

text \<open>
  Modelled from the spec: \<^verbatim>\<open>hamilton.registry\<close> is imported by \<^verbatim>\<open>expanders.py\<close>, not
  defined in it. The spec gives the capability provider as
  \<^verbatim>\<open>get_column_type_from_table_type(type) -> type | raises\<close>,
  \<^verbatim>\<open>get_column(table, name) -> value | raises KeyError\<close> and
  \<^verbatim>\<open>fill_with_scalar(table, name, value) -> void (mutates table in place)\<close>, which
  materialises the column with the fill value. The one table type registered here is
  the DataFrame, whose column type is the Series; \<^verbatim>\<open>validate_return_type\<close> expects
  NotImplementedError for any other type.
\<close>

fun get_column_type_from_df_type :: "pytype \<Rightarrow> error + pytype" where
  "get_column_type_from_df_type TDataFrame = Inr TSeries"
| "get_column_type_from_df_type t = Inl NotImplementedError"

text \<open>
  Modelled from the spec: \<^verbatim>\<open>registry.get_column(table, name)\<close> returns the column or raises
  KeyError.
\<close>

fun get_column :: "pyval \<Rightarrow> pyval \<Rightarrow> error + pyval" where
  "get_column (PFrame n cols) column_name =
     (case map_of cols column_name of
        None \<Rightarrow> Inl (KeyError column_name)
      | Some cells \<Rightarrow> Inr (PSeries cells))"
| "get_column df column_name = Inl Unmodelled"

text \<open>
  Modelled from the spec: \<^verbatim>\<open>registry.fill_with_scalar(table, name, value)\<close> sets the column
  of that name to the value in every row of the table, in place; the model returns the
  new table.
\<close>

fun fill_with_scalar :: "pyval \<Rightarrow> pyval \<Rightarrow> pyval \<Rightarrow> error + pyval" where
  "fill_with_scalar (PFrame n cols) column_name scalar_value =
     Inr (PFrame n (dict_set cols column_name (replicate n scalar_value)))"
| "fill_with_scalar df column_name scalar_value = Inl Unmodelled"

text \<open>
  Binding of a function \<^verbatim>\<open>def f(p=default, **kwargs)\<close>: the parameter takes the one
  positional argument, or the keyword argument of its name, or the default.
\<close>

definition bind_default ::
    "string \<Rightarrow> pyval \<Rightarrow> pyval list \<Rightarrow> kwargs \<Rightarrow> error + (pyval \<times> kwargs)" where
  "bind_default parameter dflt args kwargs =
     (case args of
        [] \<Rightarrow>
          (case map_of kwargs parameter of
             None \<Rightarrow> Inr (dflt, kwargs)
           | Some v \<Rightarrow> Inr (v, dict_del kwargs parameter))
      | [a] \<Rightarrow> if parameter \<in> set (keys kwargs) then Inl TypeError else Inr (a, kwargs)
      | _ \<Rightarrow> Inl TypeError)"

section \<open>\<^verbatim>\<open>extract_columns\<close>\<close>

record extract_columns =
  columns :: "pyval list"
  fill_with :: pyval

fun is_list :: "pyval \<Rightarrow> bool" where
  "is_list (PList xs) = True"
| "is_list v = False"

definition extract_columns_init :: "pyval list \<Rightarrow> pyval \<Rightarrow> error + extract_columns" where
  "extract_columns_init columns' fill_with' =
     (case columns' of
        [] \<Rightarrow> Inl (InvalidDecoratorException
                 [Text ''Error empty arguments passed to extract_columns decorator.''])
      | c # cs \<Rightarrow>
          if is_list c then
            Inl (InvalidDecoratorException
              [Text ''Error list passed in. Please `*` in front of it to expand it.''])
          else Inr \<lparr>columns = columns', fill_with = fill_with'\<rparr>)"

definition validate_return_type :: "pytype \<Rightarrow> pyfunction \<Rightarrow> error + unit" where
  "validate_return_type return_annotation fn =
     (case get_column_type_from_df_type return_annotation of
        Inl NotImplementedError \<Rightarrow>
          Inl (InvalidDecoratorException
            [Text ''Error '', Interp (PStr (fn_name fn)),
             Text '' does not output a type we know about. Is it a dataframe type we support?''])
      | Inl e \<Rightarrow> Inl e
      | Inr t \<Rightarrow> Inr ())"

text \<open>The loop of \<^verbatim>\<open>df_generator\<close> over \<^verbatim>\<open>self.columns\<close>, when a fill value is set.\<close>

fun fill_columns :: "pyval \<Rightarrow> pyval list \<Rightarrow> pyval \<Rightarrow> error + pyval" where
  "fill_columns fill [] df_generated = Inr df_generated"
| "fill_columns fill (col # rest) df_generated =
     (case py_contains df_generated col of
        Inl e \<Rightarrow> Inl e
      | Inr True \<Rightarrow> fill_columns fill rest df_generated
      | Inr False \<Rightarrow>
          (case fill_with_scalar df_generated col fill of
             Inl e \<Rightarrow> Inl e
           | Inr df_filled \<Rightarrow>
               (case py_contains df_filled col of
                  Inl e \<Rightarrow> Inl e
                | Inr False \<Rightarrow> Inl AssertionError
                | Inr True \<Rightarrow> fill_columns fill rest df_filled)))"

definition df_generator :: "extract_columns \<Rightarrow> callable \<Rightarrow> callable" where
  "df_generator self fn args kwargs =
     (case fn args kwargs of
        Inl e \<Rightarrow> Inl e
      | Inr df_generated \<Rightarrow>
          if extract_columns.fill_with self \<noteq> PNone
          then fill_columns (extract_columns.fill_with self) (columns self) df_generated
          else Inr df_generated)"

definition column_extractor_fn :: "string \<Rightarrow> pyval \<Rightarrow> callable" where
  "column_extractor_fn node_name column args kwargs =
     (case bind_default ''column_to_extract'' column args kwargs of
        Inl e \<Rightarrow> Inl e
      | Inr (column_to_extract, kwargs') \<Rightarrow>
          (case dict_getitem kwargs' node_name of
             Inl e \<Rightarrow> Inl e
           | Inr df \<Rightarrow>
               (case py_contains df column_to_extract of
                  Inl e \<Rightarrow> Inl e
                | Inr False \<Rightarrow>
                    (case get_columns df of
                       Inl e \<Rightarrow> Inl e
                     | Inr df_columns \<Rightarrow>
                         Inl (InvalidDecoratorException
                           [Text ''No such column: '', Interp column_to_extract,
                            Text '' produced by '', Interp (PStr node_name),
                            Text ''. It only produced '', Interp df_columns]))
                | Inr True \<Rightarrow> get_column df column_to_extract)))"

text \<open>
  One declared column: a \<^verbatim>\<open>(name, documentation)\<close> tuple is unpacked (a ValueError when it
  has not two elements). The name of a node and its documentation are strings; a
  declaration of another shape is outside the model.
\<close>

definition column_node ::
    "node \<Rightarrow> pytype \<Rightarrow> pyval \<Rightarrow> error + node" where
  "column_node node' series_type column =
     (case
        (case column of
           PTuple [c, d] \<Rightarrow> Inr (c, Some d)
         | PTuple xs \<Rightarrow> Inl ValueError
         | c \<Rightarrow> Inr (c, None))
      of
        Inl e \<Rightarrow> Inl e
      | Inr (PStr column_name, doc) \<Rightarrow>
          (case
             (case doc of
                None \<Rightarrow> Inr (documentation node')
              | Some (PStr d) \<Rightarrow> Inr (Some d)
              | Some PNone \<Rightarrow> Inr None
              | Some v \<Rightarrow> Inl Unmodelled)
           of
             Inl e \<Rightarrow> Inl e
           | Inr doc_string \<Rightarrow>
               Inr \<lparr>name = column_name,
                    node_type = series_type,
                    documentation = doc_string,
                    callable = column_extractor_fn (name node') (PStr column_name),
                    input_types = [(name node', node_type node')],
                    tags = tags node'\<rparr>)
      | Inr (c, doc) \<Rightarrow> Inl Unmodelled)"

fun column_nodes :: "node \<Rightarrow> pytype \<Rightarrow> pyval list \<Rightarrow> error + node list" where
  "column_nodes node' series_type [] = Inr []"
| "column_nodes node' series_type (column # rest) =
     (case column_node node' series_type column of
        Inl e \<Rightarrow> Inl e
      | Inr n \<Rightarrow>
          (case column_nodes node' series_type rest of
             Inl e \<Rightarrow> Inl e
           | Inr ns \<Rightarrow> Inr (n # ns)))"

text \<open>
  \<^verbatim>\<open>extract_columns.expand_node\<close>. Its parameter \<^verbatim>\<open>fn\<close> is overwritten by
  \<^verbatim>\<open>node_.callable\<close> in the first statement, so the model leaves it out.
\<close>

definition extract_columns_expand_node ::
    "extract_columns \<Rightarrow> node \<Rightarrow> kwargs \<Rightarrow> error + node list" where
  "extract_columns_expand_node self node' config =
     (case get_column_type_from_df_type (node_type node') of
        Inl e \<Rightarrow> Inl e
      | Inr series_type \<Rightarrow>
          (case column_nodes node' series_type (columns self) of
             Inl e \<Rightarrow> Inl e
           | Inr ns \<Rightarrow> Inr (copy_with node' (df_generator self (callable node')) # ns)))"

section \<open>\<^verbatim>\<open>extract_fields\<close>\<close>

text \<open>
  The declaration maps field names to types. The fields \<open>fields_of\<close> and
  \<open>fields_fill_with\<close> are the attributes \<^verbatim>\<open>fields\<close> and \<^verbatim>\<open>fill_with\<close> of the class.
\<close>

record extract_fields =
  fields_of :: "(string \<times> pytype) list"
  fields_fill_with :: pyval

definition extract_fields_init :: "(string \<times> pytype) list \<Rightarrow> pyval \<Rightarrow> error + extract_fields" where
  "extract_fields_init fields' fill_with' =
     (if fields' = [] then
        Inl (InvalidDecoratorException
          [Text ''Error an empty dict, or no dict, passed to extract_fields decorator.''])
      else Inr \<lparr>fields_of = fields', fields_fill_with = fill_with'\<rparr>)"

text \<open>\<^verbatim>\<open>container[key] = v\<close>, \<^verbatim>\<open>container[key]\<close> and \<^verbatim>\<open>list(container.keys())\<close>.\<close>

fun py_setitem :: "pyval \<Rightarrow> pyval \<Rightarrow> pyval \<Rightarrow> error + pyval" where
  "py_setitem (PDict items) key v =
     (if hashable key then Inr (PDict (dict_set items key v)) else Inl TypeError)"
| "py_setitem container key v = Inl Unmodelled"

fun py_getitem :: "pyval \<Rightarrow> pyval \<Rightarrow> error + pyval" where
  "py_getitem (PDict items) key =
     (if hashable key then
        (case map_of items key of None \<Rightarrow> Inl (KeyError key) | Some v \<Rightarrow> Inr v)
      else Inl TypeError)"
| "py_getitem container key = Inl Unmodelled"

fun py_keys_list :: "pyval \<Rightarrow> error + pyval" where
  "py_keys_list (PDict items) = Inr (PList (keys items))"
| "py_keys_list (PFrame n cols) = Inr (PList (keys cols))"
| "py_keys_list v = Inl Unmodelled"

fun fill_fields :: "pyval \<Rightarrow> string list \<Rightarrow> pyval \<Rightarrow> error + pyval" where
  "fill_fields fill [] dict_generated = Inr dict_generated"
| "fill_fields fill (field # rest) dict_generated =
     (case py_contains dict_generated (PStr field) of
        Inl e \<Rightarrow> Inl e
      | Inr True \<Rightarrow> fill_fields fill rest dict_generated
      | Inr False \<Rightarrow>
          (case py_setitem dict_generated (PStr field) fill of
             Inl e \<Rightarrow> Inl e
           | Inr dict_filled \<Rightarrow> fill_fields fill rest dict_filled))"

definition dict_generator :: "extract_fields \<Rightarrow> callable \<Rightarrow> callable" where
  "dict_generator self fn args kwargs =
     (case fn args kwargs of
        Inl e \<Rightarrow> Inl e
      | Inr dict_generated \<Rightarrow>
          if fields_fill_with self \<noteq> PNone
          then fill_fields (fields_fill_with self) (keys (fields_of self)) dict_generated
          else Inr dict_generated)"

definition field_extractor_fn :: "string \<Rightarrow> string \<Rightarrow> callable" where
  "field_extractor_fn node_name field args kwargs =
     (case bind_default ''field_to_extract'' (PStr field) args kwargs of
        Inl e \<Rightarrow> Inl e
      | Inr (field_to_extract, kwargs') \<Rightarrow>
          (case dict_getitem kwargs' node_name of
             Inl e \<Rightarrow> Inl e
           | Inr dt \<Rightarrow>
               (case py_contains dt field_to_extract of
                  Inl e \<Rightarrow> Inl e
                | Inr False \<Rightarrow>
                    (case py_keys_list dt of
                       Inl e \<Rightarrow> Inl e
                     | Inr dt_keys \<Rightarrow>
                         Inl (InvalidDecoratorException
                           [Text ''No such field: '', Interp field_to_extract,
                            Text '' produced by '', Interp (PStr node_name),
                            Text ''. It only produced '', Interp dt_keys]))
                | Inr True \<Rightarrow> py_getitem dt field_to_extract)))"

definition field_node :: "node \<Rightarrow> string \<times> pytype \<Rightarrow> node" where
  "field_node node' fd =
     \<lparr>name = fst fd,
      node_type = snd fd,
      documentation = documentation node',
      callable = field_extractor_fn (name node') (fst fd),
      input_types = [(name node', TDict)],
      tags = tags node'\<rparr>"

text \<open>
  \<^verbatim>\<open>extract_fields.expand_node\<close>; as for the columns, its parameter \<^verbatim>\<open>fn\<close> is
  overwritten at once and left out.
\<close>

definition extract_fields_expand_node ::
    "extract_fields \<Rightarrow> node \<Rightarrow> kwargs \<Rightarrow> error + node list" where
  "extract_fields_expand_node self node' config =
     Inr (copy_with node' (dict_generator self (callable node')) # map (field_node node') (fields_of self))"

section \<open>\<^verbatim>\<open>parameterize_extract_columns\<close>\<close>

record ParameterizedExtract =
  outputs :: "string list"
  input_mapping :: "(string \<times> ParametrizedDependency) list"

record parameterize_extract_columns =
  extract_config :: "ParameterizedExtract list"
  reassign_columns :: bool

text \<open>
  \<^verbatim>\<open>wrapper_fn\<close> calls the decorated function and assigns the declared outputs to the
  column labels of the result. \<^verbatim>\<open>_output_columns\<close> is a keyword-only parameter with a
  default, which a keyword argument of that name rebinds.
\<close>

definition wrapper_fn :: "pyfunction \<Rightarrow> string list \<Rightarrow> callable" where
  "wrapper_fn fn outputs' args kwargs =
     (let output_columns =
            (case map_of kwargs ''_output_columns'' of
               None \<Rightarrow> PTuple (map PStr outputs')
             | Some v \<Rightarrow> v);
          kwargs' = dict_del kwargs ''_output_columns''
      in case fn_call fn args kwargs' of
           Inl e \<Rightarrow> Inl e
         | Inr df_out \<Rightarrow> set_columns df_out output_columns)"

text \<open>
  One configuration record. \<^verbatim>\<open>functools.wraps(fn)\<close> gives \<^verbatim>\<open>wrapper_fn\<close> the docstring,
  name and signature of \<^verbatim>\<open>fn\<close>. The single node of the parameterization is unpacked from
  the result (a ValueError if there is not exactly one).
\<close>

definition extract_record ::
    "parameterize_extract_columns \<Rightarrow> node \<Rightarrow> kwargs \<Rightarrow> pyfunction \<Rightarrow> nat \<Rightarrow> ParameterizedExtract
       \<Rightarrow> error + node list" where
  "extract_record self node' config fn i parameterization =
     (let wrapper = wrapper_fn fn (outputs parameterization);
          new_node = copy_with node' wrapper;
          fn_to_call = (if reassign_columns self then fn\<lparr>fn_call := wrapper\<rparr> else fn)
      in case parameterize_init
                [(name node' @ ''__'' @ str_nat i,
                  Assignments (map (\<lambda>(parameter, d). (parameter, Dep d)) (input_mapping parameterization)))] of
           Inl e \<Rightarrow> Inl e
         | Inr parameterization_decorator \<Rightarrow>
             (case parameterize_expand_node parameterization_decorator new_node config fn_to_call of
                Inl e \<Rightarrow> Inl e
              | Inr [parameterized_node] \<Rightarrow>
                  (case extract_columns_init (map PStr (outputs parameterization)) PNone of
                     Inl e \<Rightarrow> Inl e
                   | Inr extract_columns_decorator \<Rightarrow>
                       extract_columns_expand_node extract_columns_decorator parameterized_node config)
              | Inr ns \<Rightarrow> Inl ValueError))"

fun extract_records ::
    "parameterize_extract_columns \<Rightarrow> node \<Rightarrow> kwargs \<Rightarrow> pyfunction \<Rightarrow> nat
       \<Rightarrow> ParameterizedExtract list \<Rightarrow> error + node list" where
  "extract_records self node' config fn i [] = Inr []"
| "extract_records self node' config fn i (parameterization # rest) =
     (case extract_record self node' config fn i parameterization of
        Inl e \<Rightarrow> Inl e
      | Inr ns \<Rightarrow>
          (case extract_records self node' config fn (Suc i) rest of
             Inl e \<Rightarrow> Inl e
           | Inr ms \<Rightarrow> Inr (ns @ ms)))"

definition parameterize_extract_columns_expand_node ::
    "parameterize_extract_columns \<Rightarrow> node \<Rightarrow> kwargs \<Rightarrow> pyfunction \<Rightarrow> error + node list" where
  "parameterize_extract_columns_expand_node self node' config fn =
     extract_records self node' config fn 0 (extract_config self)"

section \<open>Docstring templates\<close>

text \<open>
  A simple template is a sequence of literal text without braces and of placeholders
  \<^verbatim>\<open>{name}\<close> whose name is not empty, is not a number and has none of the characters
  that start a conversion, a format specification, an attribute access or an index.
  \<open>substitute\<close> is the replacement of one piece: the reserved placeholder by the name of
  the output, the placeholder of a parameter bound to a literal by the rendering of the
  literal, the placeholder of a parameter bound to a reference by the referenced name,
  and any other placeholder by its bare name.
\<close>

datatype piece = Lit string | Field string

definition plain_text :: "string \<Rightarrow> bool" where
  "plain_text s = (CHR ''{'' \<notin> set s \<and> CHR ''}'' \<notin> set s)"

definition simple_name :: "string \<Rightarrow> bool" where
  "simple_name n =
     (n \<noteq> [] \<and> \<not> (\<forall>c \<in> set n. is_digit c) \<and> (\<forall>c \<in> set n. c \<notin> set ''{}[]!:.''))"

fun simple_piece :: "piece \<Rightarrow> bool" where
  "simple_piece (Lit s) = plain_text s"
| "simple_piece (Field n) = simple_name n"

fun piece_text :: "piece \<Rightarrow> string" where
  "piece_text (Lit s) = s"
| "piece_text (Field n) = CHR ''{'' # n @ ''}''"

definition template :: "piece list \<Rightarrow> string" where
  "template ps = concat (map piece_text ps)"

fun substitute ::
    "(pyval \<Rightarrow> string) \<Rightarrow> string \<Rightarrow> (string \<times> ParametrizedDependency) list \<Rightarrow> piece \<Rightarrow> string" where
  "substitute str_of output_name m (Lit s) = s"
| "substitute str_of output_name m (Field n) =
     (if n = ''output_name'' then output_name
      else (case map_of m n of
              Some (LiteralDependency v) \<Rightarrow> str_of v
            | Some (UpstreamDependency s) \<Rightarrow> s
            | None \<Rightarrow> n))"

section \<open>Input names of a parameterized node\<close>

text \<open>
  The name under which a parameter of the original function is an input of the node of
  an output: the referenced upstream name when the parameter is bound to a reference,
  the name of the parameter itself otherwise.
\<close>

definition input_name :: "(string \<times> ParametrizedDependency) list \<Rightarrow> string \<Rightarrow> string" where
  "input_name m p = (case map_of (upstream_sources m) p of Some s \<Rightarrow> s | None \<Rightarrow> p)"

text \<open>
  The inputs of the node of an output, in the order of the parameters of the original
  node: every parameter that is not bound to a literal, under its input name.
\<close>

definition renamed_inputs ::
  "(string \<times> ParametrizedDependency) list \<Rightarrow> (string \<times> pytype) list \<Rightarrow> (string \<times> pytype) list" where
  "renamed_inputs m its =
     map (\<lambda>pt. (input_name m (fst pt), snd pt))
       (filter (\<lambda>pt. fst pt \<notin> set (keys (literal_values m))) its)"

section \<open>An example function\<close>

text \<open>
  The example of the specification: a function \<^verbatim>\<open>f(a, b) -> int\<close>, here with the body
  \<^verbatim>\<open>return a + b\<close>, its node and what the decorators read of it. \<open>bind_arguments\<close> is the
  binding of positional and keyword arguments to the parameters of a function without
  defaults: a TypeError for too many positional arguments, for a parameter given twice,
  for an unexpected keyword and for a missing argument.
\<close>

definition bind_arguments :: "string list \<Rightarrow> pyval list \<Rightarrow> kwargs \<Rightarrow> error + kwargs" where
  "bind_arguments parameters args kwargs =
     (if length parameters < length args then Inl TypeError
      else if \<exists>k \<in> set (keys kwargs). k \<in> set (take (length args) parameters) then Inl TypeError
      else if \<exists>k \<in> set (keys kwargs). k \<notin> set parameters then Inl TypeError
      else if \<exists>p \<in> set (drop (length args) parameters). p \<notin> set (keys kwargs) then Inl TypeError
      else Inr (zip parameters args @ kwargs))"

definition example_f :: callable where
  "example_f args kwargs =
     (case bind_arguments [''a'', ''b''] args kwargs of
        Inl e \<Rightarrow> Inl e
      | Inr bound \<Rightarrow>
          (case (map_of bound ''a'', map_of bound ''b'') of
             (Some (PInt a), Some (PInt b)) \<Rightarrow> Inr (PInt (a + b))
           | _ \<Rightarrow> Inl Unmodelled))"

definition example_fn :: pyfunction where
  "example_fn =
     \<lparr>fn_doc = Some ''Adds {a} to {b} to create {output_name}.'', fn_module = ''example'',
      fn_name = ''f'', fn_parameters = [''a'', ''b''], fn_call = example_f\<rparr>"

definition example_node :: node where
  "example_node =
     \<lparr>name = ''f'', node_type = TInt, documentation = fn_doc example_fn, callable = example_f,
      input_types = [(''a'', TInt), (''b'', TStr)], tags = [(''module'', PStr ''example'')]\<rparr>"

text \<open>
  A function without parameters that returns a table of one row with the columns
  \<^verbatim>\<open>a\<close> and \<^verbatim>\<open>b\<close>, and a function that returns a table with the single column \<^verbatim>\<open>c1\<close>.
\<close>

definition example_table_f :: callable where
  "example_table_f args kwargs =
     (case bind_arguments [] args kwargs of
        Inl e \<Rightarrow> Inl e
      | Inr bound \<Rightarrow> Inr (PFrame 1 [(PStr ''a'', [PInt 1]), (PStr ''b'', [PInt 2])]))"

definition example_table_fn :: pyfunction where
  "example_table_fn =
     \<lparr>fn_doc = None, fn_module = ''example'', fn_name = ''df'', fn_parameters = [],
      fn_call = example_table_f\<rparr>"

definition example_table_node :: node where
  "example_table_node =
     \<lparr>name = ''df'', node_type = TDataFrame, documentation = None, callable = example_table_f,
      input_types = [], tags = []\<rparr>"

definition example_c1_f :: callable where
  "example_c1_f args kwargs =
     (case bind_arguments [] args kwargs of
        Inl e \<Rightarrow> Inl e
      | Inr bound \<Rightarrow> Inr (PFrame 2 [(PStr ''c1'', [PInt 1, PInt 2])]))"

definition example_c1_node :: node where
  "example_c1_node =
     \<lparr>name = ''df'', node_type = TDataFrame, documentation = Some ''base doc'',
      callable = example_c1_f, input_types = [], tags = []\<rparr>"

text \<open>A function without parameters that returns a dict with the single key \<^verbatim>\<open>y\<close>.\<close>

definition example_dict_f :: callable where
  "example_dict_f args kwargs =
     (case bind_arguments [] args kwargs of
        Inl e \<Rightarrow> Inl e
      | Inr bound \<Rightarrow> Inr (PDict [(PStr ''y'', PInt 1)]))"

definition example_dict_node :: node where
  "example_dict_node =
     \<lparr>name = ''d'', node_type = TGenericDict TStr TInt, documentation = None,
      callable = example_dict_f, input_types = [], tags = []\<rparr>"

section \<open>Evaluation of the examples\<close>

lemma str_nat_one: "str_nat (Suc 0) = ''1''"
  by (simp add: str_nat.simps [of "Suc 0"] digit_def)

lemmas example_eval =
  str_nat_one Let_def
  parameterize_validate_def example_fn_def example_node_def format_doc_string_def dict_merge_def
  keys_def RESERVED_KWARG_def render_field_def IdentityDict_getitem_def is_digit_def
  upstream_sources_def literal_values_def str_int_def digit_def
  parameterize_expand_node_def parameterize_node_def

lemmas call_eval =
  partial_def replacement_function_def inject_literals_def dict_pop_def dict_del_def
  bind_arguments_def example_f_def dict_getitem_def bind_default_def
  example_table_f_def example_table_fn_def example_table_node_def
  example_c1_f_def example_c1_node_def copy_with_def

lemmas extract_eval =
  parameterize_extract_columns_expand_node_def extract_record_def wrapper_fn_def
  parameterize_init_def bad_values_of_def extract_columns_init_def
  extract_columns_expand_node_def column_node_def column_extractor_fn_def df_generator_def

lemma str_nat_zero: "str_nat 0 = ''0''"
  by (simp add: str_nat.simps [of 0] digit_def)

section \<open>Construction of \<^verbatim>\<open>parameterize\<close>\<close>

lemma bad_values_of_member:
  assumes "(output, arg) \<in> set kw" and "(parameter, NotDep v) \<in> set (assignments_of arg)"
  shows "v \<in> set (bad_values_of kw)"
  using assms unfolding bad_values_of_def by force

text \<open>
  Claim C7. If any value anywhere in the mapping of any output is not a dependency, the
  constructor of \<^verbatim>\<open>parameterize\<close> raises InvalidDecoratorException, and the message
  lists the offending values. The constructor takes the keyword arguments only: no
  function has been looked at when it raises.
\<close>

theorem parameterize_init_rejects_non_dependency:
  assumes "(output, arg) \<in> set kw"
    and "(parameter, NotDep v) \<in> set (assignments_of arg)"
  shows "v \<in> set (bad_values_of kw) \<and>
         parameterize_init kw =
           Inl (InvalidDecoratorException
             [Text ''@parameterize must specify a dependency type -- either source() or value().The following are not allowed: '',
              Interp (PList (bad_values_of kw)), Text ''.''])"
proof -
  have mem: "v \<in> set (bad_values_of kw)"
    using assms by (rule bad_values_of_member)
  then have "bad_values_of kw \<noteq> []" by auto
  then show ?thesis using mem by (simp add: parameterize_init_def Let_def)
qed

theorem parameterize_init_rejects_non_dependency_witness:
  "PInt 7 \<in> set (bad_values_of
       [(''out'', WithDocstring [(''a'', Dep (UpstreamDependency ''n'')), (''b'', NotDep (PInt 7))] ''doc'')]) \<and>
   parameterize_init
       [(''out'', WithDocstring [(''a'', Dep (UpstreamDependency ''n'')), (''b'', NotDep (PInt 7))] ''doc'')] =
     Inl (InvalidDecoratorException
       [Text ''@parameterize must specify a dependency type -- either source() or value().The following are not allowed: '',
        Interp (PList [PInt 7]), Text ''.''])"
  using parameterize_init_rejects_non_dependency
          [of "''out''" "WithDocstring [(''a'', Dep (UpstreamDependency ''n'')), (''b'', NotDep (PInt 7))] ''doc''"
              "[(''out'', WithDocstring [(''a'', Dep (UpstreamDependency ''n'')), (''b'', NotDep (PInt 7))] ''doc'')]"
              "''b''" "PInt 7"]
  by (simp add: bad_values_of_def)

section \<open>The extractor nodes\<close>




lemma column_nodes_declared:
  "column_nodes node' series_type cols = Inr ns \<Longrightarrow> column \<in> set cols \<Longrightarrow>
     \<exists>n \<in> set ns. column_node node' series_type column = Inr n"
  by (induction cols arbitrary: ns) (auto split: sum.splits)



lemma column_node_declared:
  assumes "column_node node' series_type column = Inr n"
    and "column = PStr c \<or> column = PTuple [PStr c, d]"
  shows "name n = c \<and> callable n = column_extractor_fn (name node') (PStr c)"
  using assms unfolding column_node_def
  by (auto split: pyval.splits list.splits option.splits sum.splits prod.splits)

lemma column_extractor_fn_absent:
  assumes "map_of kwargs node_name = Some (PFrame r cols)"
    and "''column_to_extract'' \<notin> set (keys kwargs)"
    and "PStr c \<notin> set (keys cols)"
  shows "column_extractor_fn node_name (PStr c) [] kwargs =
           Inl (InvalidDecoratorException
             [Text ''No such column: '', Interp (PStr c),
              Text '' produced by '', Interp (PStr node_name),
              Text ''. It only produced '', Interp (PIndex (keys cols))])"
proof -
  have "map_of kwargs ''column_to_extract'' = None"
    using assms(2) by (simp add: keys_def map_of_eq_None_iff)
  then show ?thesis
    using assms(1,3)
    by (simp add: column_extractor_fn_def bind_default_def dict_getitem_def)
qed

lemma field_extractor_fn_absent:
  assumes "map_of kwargs node_name = Some (PDict items)"
    and "''field_to_extract'' \<notin> set (keys kwargs)"
    and "PStr field \<notin> set (keys items)"
  shows "field_extractor_fn node_name field [] kwargs =
           Inl (InvalidDecoratorException
             [Text ''No such field: '', Interp (PStr field),
              Text '' produced by '', Interp (PStr node_name),
              Text ''. It only produced '', Interp (PList (keys items))])"
proof -
  have "map_of kwargs ''field_to_extract'' = None"
    using assms(2) by (simp add: keys_def map_of_eq_None_iff)
  then show ?thesis
    using assms(1,3)
    by (simp add: field_extractor_fn_def bind_default_def dict_getitem_def)
qed

lemma df_generator_no_fill:
  "extract_columns.fill_with ec = PNone \<Longrightarrow> df_generator ec fn = fn"
  by (rule ext, rule ext) (simp add: df_generator_def split: sum.splits)

lemma dict_generator_no_fill:
  "fields_fill_with ef = PNone \<Longrightarrow> dict_generator ef fn = fn"
  by (rule ext, rule ext) (simp add: dict_generator_def split: sum.splits)

lemma column_nodes_succeed:
  assumes "\<forall>column \<in> set cols.
             (\<exists>c. column = PStr c) \<or> (\<exists>c d. column = PTuple [PStr c, PStr d])"
  shows "\<exists>ns. column_nodes node' series_type cols = Inr ns"
  using assms
proof (induction cols)
  case Nil
  show ?case by simp
next
  case (Cons column cols)
  then obtain ns where ns: "column_nodes node' series_type cols = Inr ns" by auto
  from Cons.prems have "(\<exists>c. column = PStr c) \<or> (\<exists>c d. column = PTuple [PStr c, PStr d])"
    by simp
  then obtain n where "column_node node' series_type column = Inr n"
    by (auto simp: column_node_def)
  with ns show ?case by simp
qed

lemma extract_columns_expand_node_succeeds:
  assumes "node_type node' = TDataFrame"
    and "\<forall>column \<in> set (columns ec).
           (\<exists>c. column = PStr c) \<or> (\<exists>c d. column = PTuple [PStr c, PStr d])"
  shows "\<exists>ns. extract_columns_expand_node ec node' config = Inr ns"
proof -
  from column_nodes_succeed [OF assms(2), of node' TSeries] obtain cs
    where "column_nodes node' TSeries (columns ec) = Inr cs" by blast
  then show ?thesis using assms(1) by (simp add: extract_columns_expand_node_def)
qed

text \<open>
  The extractors away from the names of their own parameters. Expansion succeeds for a
  table type the capability provider knows and declarations that are names or pairs of
  name and documentation. When no fill value is configured, the container node returns
  what the original function returns; and for every declared column and every declared
  field, the callable of its extractor node, invoked with keyword arguments that hold
  the container under the name of the original node and none of which is called like the
  parameter of the extractor, raises InvalidDecoratorException when the container lacks
  the column or field. The message names the column or field and the original node and
  lists the columns or keys that the container has.
\<close>

lemma extractor_raises_unless_rebound:
  "(extract_columns_expand_node ec node' config = Inr ns \<longrightarrow>
      (extract_columns.fill_with ec = PNone \<longrightarrow> callable (hd ns) = callable node') \<and>
      (\<forall>column \<in> set (columns ec). \<forall>c d. column = PStr c \<or> column = PTuple [PStr c, d] \<longrightarrow>
         (\<exists>n \<in> set (tl ns). name n = c \<and>
            (\<forall>kwargs r cols.
               map_of kwargs (name node') = Some (PFrame r cols) \<and>
               ''column_to_extract'' \<notin> set (keys kwargs) \<and>
               PStr c \<notin> set (keys cols) \<longrightarrow>
               callable n [] kwargs =
                 Inl (InvalidDecoratorException
                   [Text ''No such column: '', Interp (PStr c),
                    Text '' produced by '', Interp (PStr (name node')),
                    Text ''. It only produced '', Interp (PIndex (keys cols))]))))) \<and>
   (\<exists>container extractors.
      extract_fields_expand_node ef node' config = Inr (container # extractors) \<and>
      (fields_fill_with ef = PNone \<longrightarrow> callable container = callable node') \<and>
      (\<forall>(field, field_type) \<in> set (fields_of ef).
         \<exists>n \<in> set extractors. name n = field \<and>
            (\<forall>kwargs items.
               map_of kwargs (name node') = Some (PDict items) \<and>
               ''field_to_extract'' \<notin> set (keys kwargs) \<and>
               PStr field \<notin> set (keys items) \<longrightarrow>
               callable n [] kwargs =
                 Inl (InvalidDecoratorException
                   [Text ''No such field: '', Interp (PStr field),
                    Text '' produced by '', Interp (PStr (name node')),
                    Text ''. It only produced '', Interp (PList (keys items))]))))"
proof (intro conjI impI)
  assume ok: "extract_columns_expand_node ec node' config = Inr ns"
  then obtain st cs where cs: "column_nodes node' st (columns ec) = Inr cs"
    and ns: "ns = copy_with node' (df_generator ec (callable node')) # cs"
    by (auto simp: extract_columns_expand_node_def split: sum.splits)
  show "callable (hd ns) = callable node'" if "extract_columns.fill_with ec = PNone"
    using that by (simp add: ns copy_with_def df_generator_no_fill)
  show "\<forall>column \<in> set (columns ec). \<forall>c d. column = PStr c \<or> column = PTuple [PStr c, d] \<longrightarrow>
         (\<exists>n \<in> set (tl ns). name n = c \<and>
            (\<forall>kwargs r cols.
               map_of kwargs (name node') = Some (PFrame r cols) \<and>
               ''column_to_extract'' \<notin> set (keys kwargs) \<and>
               PStr c \<notin> set (keys cols) \<longrightarrow>
               callable n [] kwargs =
                 Inl (InvalidDecoratorException
                   [Text ''No such column: '', Interp (PStr c),
                    Text '' produced by '', Interp (PStr (name node')),
                    Text ''. It only produced '', Interp (PIndex (keys cols))])))"
  proof (intro ballI allI impI)
    fix column c d
    assume mem: "column \<in> set (columns ec)"
      and shape: "column = PStr c \<or> column = PTuple [PStr c, d]"
    from column_nodes_declared [OF cs mem] obtain n
      where n: "n \<in> set cs" "column_node node' st column = Inr n" by blast
    from column_node_declared [OF n(2) shape]
    have "name n = c" "callable n = column_extractor_fn (name node') (PStr c)" by simp_all
    then show "\<exists>n \<in> set (tl ns). name n = c \<and>
            (\<forall>kwargs r cols.
               map_of kwargs (name node') = Some (PFrame r cols) \<and>
               ''column_to_extract'' \<notin> set (keys kwargs) \<and>
               PStr c \<notin> set (keys cols) \<longrightarrow>
               callable n [] kwargs =
                 Inl (InvalidDecoratorException
                   [Text ''No such column: '', Interp (PStr c),
                    Text '' produced by '', Interp (PStr (name node')),
                    Text ''. It only produced '', Interp (PIndex (keys cols))]))"
      using n(1) column_extractor_fn_absent by (auto simp: ns)
  qed
next
  show "\<exists>container extractors.
      extract_fields_expand_node ef node' config = Inr (container # extractors) \<and>
      (fields_fill_with ef = PNone \<longrightarrow> callable container = callable node') \<and>
      (\<forall>(field, field_type) \<in> set (fields_of ef).
         \<exists>n \<in> set extractors. name n = field \<and>
            (\<forall>kwargs items.
               map_of kwargs (name node') = Some (PDict items) \<and>
               ''field_to_extract'' \<notin> set (keys kwargs) \<and>
               PStr field \<notin> set (keys items) \<longrightarrow>
               callable n [] kwargs =
                 Inl (InvalidDecoratorException
                   [Text ''No such field: '', Interp (PStr field),
                    Text '' produced by '', Interp (PStr (name node')),
                    Text ''. It only produced '', Interp (PList (keys items))])))"
    unfolding extract_fields_expand_node_def
    using field_extractor_fn_absent
    by (auto simp: copy_with_def dict_generator_no_fill field_node_def intro!: bexI)
qed

lemma extractor_raises_unless_rebound_example:
  "map_sum id (\<lambda>ns. (map name ns, callable (ns ! 2) [] [(''f'', PFrame 1 [(PStr ''c1'', [PInt 1])])]))
     (extract_columns_expand_node
        \<lparr>columns = [PStr ''c1'', PTuple [PStr ''c2'', PStr ''doc2'']], fill_with = PNone\<rparr>
        \<lparr>name = ''f'', node_type = TDataFrame, documentation = Some ''base doc'',
         callable = (\<lambda>args kwargs. Inr (PFrame 1 [(PStr ''c1'', [PInt 1])])),
         input_types = [], tags = []\<rparr> []) =
   Inr ([''f'', ''c1'', ''c2''],
        Inl (InvalidDecoratorException
               [Text ''No such column: '', Interp (PStr ''c2''),
                Text '' produced by '', Interp (PStr ''f''),
                Text ''. It only produced '', Interp (PIndex [PStr ''c1''])])) \<and>
   map_sum id (\<lambda>ns. (map name ns, callable (ns ! 1) [] [(''g'', PDict [(PStr ''y'', PInt 1)])]))
     (extract_fields_expand_node
        \<lparr>fields_of = [(''x'', TInt)], fields_fill_with = PNone\<rparr>
        \<lparr>name = ''g'', node_type = TGenericDict TStr TInt, documentation = None,
         callable = (\<lambda>args kwargs. Inr (PDict [(PStr ''y'', PInt 1)])),
         input_types = [], tags = []\<rparr> []) =
   Inr ([''g'', ''x''],
        Inl (InvalidDecoratorException
               [Text ''No such field: '', Interp (PStr ''x''),
                Text '' produced by '', Interp (PStr ''g''),
                Text ''. It only produced '', Interp (PList [PStr ''y''])]))"
proof -
  let ?ec = "\<lparr>columns = [PStr ''c1'', PTuple [PStr ''c2'', PStr ''doc2'']], fill_with = PNone\<rparr>"
  let ?nd = "\<lparr>name = ''f'', node_type = TDataFrame, documentation = Some ''base doc'',
         callable = (\<lambda>args kwargs. Inr (PFrame 1 [(PStr ''c1'', [PInt 1])])),
         input_types = [], tags = []\<rparr>"
  let ?ef = "\<lparr>fields_of = [(''x'', TInt)], fields_fill_with = PNone\<rparr>"
  let ?gd = "\<lparr>name = ''g'', node_type = TGenericDict TStr TInt, documentation = None,
         callable = (\<lambda>args kwargs. Inr (PDict [(PStr ''y'', PInt 1)])),
         input_types = [], tags = []\<rparr>"
  let ?kw = "[(''f'', PFrame 1 [(PStr ''c1'', [PInt 1])])]"
  let ?kw' = "[(''g'', PDict [(PStr ''y'', PInt 1)])]"
  obtain ns where ok: "extract_columns_expand_node ?ec ?nd [] = Inr ns"
    and names: "map name ns = [''f'', ''c1'', ''c2'']"
    by (simp add: extract_columns_expand_node_def column_node_def copy_with_def)
  obtain ms where ok': "extract_fields_expand_node ?ef ?gd [] = Inr ms"
    and names': "map name ms = [''g'', ''x'']"
    by (simp add: extract_fields_expand_node_def field_node_def copy_with_def)
  note inst = extractor_raises_unless_rebound
               [where ec = ?ec and node' = ?nd and config = "[]" and ns = ns and ef = ?ef]
  from inst ok have
    "\<exists>n \<in> set (tl ns). name n = ''c2'' \<and>
        (\<forall>kwargs r cols.
           map_of kwargs (name ?nd) = Some (PFrame r cols) \<and>
           ''column_to_extract'' \<notin> set (keys kwargs) \<and> PStr ''c2'' \<notin> set (keys cols) \<longrightarrow>
           callable n [] kwargs =
             Inl (InvalidDecoratorException
               [Text ''No such column: '', Interp (PStr ''c2''),
                Text '' produced by '', Interp (PStr (name ?nd)),
                Text ''. It only produced '', Interp (PIndex (keys cols))]))"
    by (simp del: map_of.simps)
  then obtain n where n: "n \<in> set (tl ns)" "name n = ''c2''"
    and every: "\<forall>kwargs r cols.
           map_of kwargs (name ?nd) = Some (PFrame r cols) \<and>
           ''column_to_extract'' \<notin> set (keys kwargs) \<and> PStr ''c2'' \<notin> set (keys cols) \<longrightarrow>
           callable n [] kwargs =
             Inl (InvalidDecoratorException
               [Text ''No such column: '', Interp (PStr ''c2''),
                Text '' produced by '', Interp (PStr (name ?nd)),
                Text ''. It only produced '', Interp (PIndex (keys cols))])"
    by blast
  from every [rule_format, of ?kw 1 "[(PStr ''c1'', [PInt 1])]"]
  have call: "callable n [] ?kw =
             Inl (InvalidDecoratorException
               [Text ''No such column: '', Interp (PStr ''c2''),
                Text '' produced by '', Interp (PStr ''f''),
                Text ''. It only produced '', Interp (PIndex [PStr ''c1''])])"
    by (simp add: keys_def)
  from names n have "n = ns ! 2"
    by (cases ns rule: list.exhaust; cases "tl ns"; cases "tl (tl ns)") auto
  with call ok names have first: "map_sum id (\<lambda>ns. (map name ns, callable (ns ! 2) [] ?kw))
     (extract_columns_expand_node ?ec ?nd []) =
   Inr ([''f'', ''c1'', ''c2''],
        Inl (InvalidDecoratorException
               [Text ''No such column: '', Interp (PStr ''c2''),
                Text '' produced by '', Interp (PStr ''f''),
                Text ''. It only produced '', Interp (PIndex [PStr ''c1''])]))"
    by simp
  have second: "map_sum id (\<lambda>ns. (map name ns, callable (ns ! 1) [] ?kw'))
     (extract_fields_expand_node ?ef ?gd []) =
   Inr ([''g'', ''x''],
        Inl (InvalidDecoratorException
               [Text ''No such field: '', Interp (PStr ''x''),
                Text '' produced by '', Interp (PStr ''g''),
                Text ''. It only produced '', Interp (PList [PStr ''y''])]))"
    by (simp add: extract_fields_expand_node_def field_node_def copy_with_def
         field_extractor_fn_def bind_default_def dict_getitem_def keys_def)
  from first second show ?thesis by simp
qed

text \<open>
  Claim C5 at a function called \<^verbatim>\<open>column_to_extract\<close>, decorated with
  \<^verbatim>\<open>extract_columns("c1", "c2")\<close> without a fill value, that returns a table with the column
  \<^verbatim>\<open>c1\<close> only, and at a function called \<^verbatim>\<open>field_to_extract\<close>, decorated with
  \<^verbatim>\<open>extract_fields({"x": int})\<close>, that returns a dict with the key \<^verbatim>\<open>y\<close> only. Each extractor
  node declares the one input named after the original node. Called with the container
  under that name, \<^verbatim>\<open>extractor_fn(column_to_extract=column, **kwargs)\<close> binds the container to
  its own parameter, \<^verbatim>\<open>kwargs\<close> is empty and \<^verbatim>\<open>kwargs[node_.name]\<close> raises KeyError: the
  extraction error that names the absent column or field is not raised.
\<close>

theorem extractor_parameter_name_capture:
  "map_sum id (\<lambda>ns. (map name ns, map input_types (tl ns), callable (hd ns) [] [],
       callable (ns ! 2) [] [(''column_to_extract'', PFrame 2 [(PStr ''c1'', [PInt 1, PInt 2])])]))
     (extract_columns_expand_node
        \<lparr>columns = [PStr ''c1'', PStr ''c2''], fill_with = PNone\<rparr>
        (example_c1_node\<lparr>name := ''column_to_extract''\<rparr>) []) =
     Inr ([''column_to_extract'', ''c1'', ''c2''],
          [ [(''column_to_extract'', TDataFrame)], [(''column_to_extract'', TDataFrame)] ],
          Inr (PFrame 2 [(PStr ''c1'', [PInt 1, PInt 2])]),
          Inl (KeyError (PStr ''column_to_extract''))) \<and>
   map_sum id (\<lambda>ns. (map name ns, map input_types (tl ns), callable (hd ns) [] [],
       callable (ns ! 1) [] [(''field_to_extract'', PDict [(PStr ''y'', PInt 1)])]))
     (extract_fields_expand_node
        \<lparr>fields_of = [(''x'', TInt)], fields_fill_with = PNone\<rparr>
        (example_dict_node\<lparr>name := ''field_to_extract''\<rparr>) []) =
     Inr ([''field_to_extract'', ''x''],
          [ [(''field_to_extract'', TDict)] ],
          Inr (PDict [(PStr ''y'', PInt 1)]),
          Inl (KeyError (PStr ''field_to_extract'')))"
  by (simp add: extract_eval example_eval call_eval numeral_2_eq_2
        extract_fields_expand_node_def field_node_def field_extractor_fn_def dict_generator_def
        example_dict_f_def example_dict_node_def)

section \<open>Construction of the convenience strategies\<close>

lemma parameterize_init_not_ValueError: "parameterize_init kw \<noteq> Inl ValueError"
  by (simp add: parameterize_init_def Let_def)

lemma find_not_tuple:
  "key \<in> set ks \<Longrightarrow> \<not> is_tuple key \<Longrightarrow> \<exists>bad. find (\<lambda>key. \<not> is_tuple key) ks = Some bad"
  by (cases "find (\<lambda>key. \<not> is_tuple key) ks") (auto simp: find_None_iff)

lemma values_parametrization_arity:
  assumes "\<forall>(key, v) \<in> set ao. \<exists>xs. key = PTuple xs \<and> (length xs = 2 \<longrightarrow> (\<exists>out d. xs = [out, PStr d]))"
    and "\<exists>(key, v) \<in> set ao. \<exists>xs. key = PTuple xs \<and> length xs \<noteq> 2"
  shows "values_parametrization parameter ao acc = Inl ValueError"
  using assms
proof (induction ao arbitrary: acc)
  case Nil
  then show ?case by simp
next
  case (Cons kv ao)
  obtain key v where kv: "kv = (key, v)" by (cases kv)
  from Cons.prems(1) kv obtain xs where xs: "key = PTuple xs"
    and two: "length xs = 2 \<longrightarrow> (\<exists>out d. xs = [out, PStr d])" by auto
  show ?case
  proof (cases "length xs = 2")
    case True
    with two obtain out d where "xs = [out, PStr d]" by blast
    moreover have "\<exists>(key, v) \<in> set ao. \<exists>xs. key = PTuple xs \<and> length xs \<noteq> 2"
      using Cons.prems(2) kv xs True by auto
    ultimately show ?thesis using Cons.IH Cons.prems(1) kv xs by simp
  next
    case False
    then show ?thesis using kv xs
      by (cases xs rule: list.exhaust; cases "tl xs"; cases "tl (tl xs)") (auto split: pyval.splits)
  qed
qed

text \<open>
  Claim C8, as amended. \<^verbatim>\<open>parameterize_sources\<close> raises ValueError for an empty
  parameterization and for an output whose mapping is empty or \<^verbatim>\<open>None\<close>; this is not an
  InvalidDecoratorException, and \<^verbatim>\<open>parameterize.__init__\<close> never raises it, so it comes
  from the checks made before delegating. \<^verbatim>\<open>parameterize_values\<close> raises
  InvalidDecoratorException, the exception that \<^verbatim>\<open>parameterize\<close> itself raises, for a key
  that is not a tuple, with a message that names the key; it raises ValueError for a
  tuple key that has not two elements; and it accepts an empty \<^verbatim>\<open>assigned_output\<close>.
\<close>

theorem convenience_init_errors:
  "(parameterization = [] \<or>
      (\<exists>(output, mappings) \<in> set parameterization. mappings = None \<or> mappings = Some []) \<longrightarrow>
      parameterize_sources_init parameterization = Inl ValueError \<and>
      \<not> is_InvalidDecoratorException ValueError \<and>
      (\<forall>kw. parameterize_init kw \<noteq> Inl ValueError)) \<and>
   ((\<exists>key \<in> set (keys assigned_output). \<not> is_tuple key) \<longrightarrow>
      (\<exists>key msg. key \<in> set (keys assigned_output) \<and> \<not> is_tuple key \<and>
         parameterize_values_init parameter assigned_output =
           Inl (InvalidDecoratorException
             [Text ''assigned_output key is incorrect: '', Interp key,
              Text ''. The parameterized decorator needs a dict of [name, doc string] -> value to function.'']))) \<and>
   ((\<forall>(key, v) \<in> set assigned_output.
        \<exists>xs. key = PTuple xs \<and> (length xs = 2 \<longrightarrow> (\<exists>out d. xs = [out, PStr d]))) \<and>
    (\<exists>(key, v) \<in> set assigned_output. \<exists>xs. key = PTuple xs \<and> length xs \<noteq> 2) \<longrightarrow>
      parameterize_values_init parameter assigned_output = Inl ValueError) \<and>
   parameterize_values_init parameter [] = Inr \<lparr>parametrization = [], specified_docstrings = []\<rparr>"
proof (intro conjI impI)
  assume "parameterization = [] \<or>
      (\<exists>(output, mappings) \<in> set parameterization. mappings = None \<or> mappings = Some [])"
  then show "parameterize_sources_init parameterization = Inl ValueError"
    by (auto simp: parameterize_sources_init_def)
next
  show "\<not> is_InvalidDecoratorException ValueError" by simp
next
  show "\<forall>kw. parameterize_init kw \<noteq> Inl ValueError"
    by (simp add: parameterize_init_not_ValueError)
next
  assume "\<exists>key \<in> set (keys assigned_output). \<not> is_tuple key"
  then obtain bad where bad: "find (\<lambda>key. \<not> is_tuple key) (keys assigned_output) = Some bad"
    using find_not_tuple by blast
  then have "bad \<in> set (keys assigned_output)" "\<not> is_tuple bad"
    by (auto simp: find_Some_iff)
  then show "\<exists>key msg. key \<in> set (keys assigned_output) \<and> \<not> is_tuple key \<and>
         parameterize_values_init parameter assigned_output =
           Inl (InvalidDecoratorException
             [Text ''assigned_output key is incorrect: '', Interp key,
              Text ''. The parameterized decorator needs a dict of [name, doc string] -> value to function.''])"
    using bad by (auto simp: parameterize_values_init_def)
next
  assume shape: "(\<forall>(key, v) \<in> set assigned_output.
        \<exists>xs. key = PTuple xs \<and> (length xs = 2 \<longrightarrow> (\<exists>out d. xs = [out, PStr d]))) \<and>
    (\<exists>(key, v) \<in> set assigned_output. \<exists>xs. key = PTuple xs \<and> length xs \<noteq> 2)"
  then have "\<forall>key \<in> set (keys assigned_output). is_tuple key"
    by (auto simp: keys_def)
  then have "find (\<lambda>key. \<not> is_tuple key) (keys assigned_output) = None"
    by (simp add: find_None_iff)
  moreover have "values_parametrization parameter assigned_output [] = Inl ValueError"
    using shape by (intro values_parametrization_arity) blast+
  ultimately show "parameterize_values_init parameter assigned_output = Inl ValueError"
    by (simp add: parameterize_values_init_def)
next
  show "parameterize_values_init parameter [] = Inr \<lparr>parametrization = [], specified_docstrings = []\<rparr>"
    by (simp add: parameterize_values_init_def parameterize_init_def bad_values_of_def keys_def)
qed

theorem convenience_init_errors_witness:
  "parameterize_sources_init [(''out'', Some [])] = Inl ValueError \<and>
   parameterize_sources_init [] = Inl ValueError \<and>
   parameterize_values_init ''p'' [(PStr ''out'', PInt 1)] =
     Inl (InvalidDecoratorException
       [Text ''assigned_output key is incorrect: '', Interp (PStr ''out''),
        Text ''. The parameterized decorator needs a dict of [name, doc string] -> value to function.'']) \<and>
   parameterize_values_init ''p'' [(PTuple [PStr ''out''], PInt 1)] = Inl ValueError"
  using convenience_init_errors [of "[(''out'', Some [])]" "[(PStr ''out'', PInt 1)]" "''p''"]
        convenience_init_errors [of "[]" "[(PStr ''out'', PInt 1)]" "''p''"]
        convenience_init_errors [of "[]" "[(PTuple [PStr ''out''], PInt 1)]" "''p''"]
  by (simp add: keys_def)

text \<open>
  Claim C8 as stated fails: a key of the values form that is not a tuple raises the same
  kind of exception as \<^verbatim>\<open>parameterize\<close> does for a value that is not a dependency, and an
  empty \<^verbatim>\<open>assigned_output\<close> raises nothing.
\<close>

theorem convenience_init_counterexample:
  "parameterize_values_init ''p'' [(PStr ''out'', PInt 1)] =
     Inl (InvalidDecoratorException
       [Text ''assigned_output key is incorrect: '', Interp (PStr ''out''),
        Text ''. The parameterized decorator needs a dict of [name, doc string] -> value to function.'']) \<and>
   parameterize_init [(''out'', Assignments [(''p'', NotDep (PInt 1))])] =
     Inl (InvalidDecoratorException
       [Text ''@parameterize must specify a dependency type -- either source() or value().The following are not allowed: '',
        Interp (PList [PInt 1]), Text ''.'']) \<and>
   parameterize_values_init ''p'' [] = Inr \<lparr>parametrization = [], specified_docstrings = []\<rparr>"
  by (simp add: parameterize_values_init_def parameterize_init_def bad_values_of_def keys_def)

section \<open>Docstring formatting\<close>

lemma format_map_plain_prefix:
  "plain_text s \<Longrightarrow>
     format_map (s @ rest) m =
       (case format_map rest m of Inl e \<Rightarrow> Inl e | Inr r \<Rightarrow> Inr (s @ r))"
proof (induction s)
  case Nil
  then show ?case by (simp split: sum.splits)
next
  case (Cons c s)
  then have c: "c \<noteq> CHR ''{''" "c \<noteq> CHR ''}''" and s: "plain_text s"
    by (auto simp: plain_text_def)
  have "format_map ((c # s) @ rest) m =
          (case format_map (s @ rest) m of Inl e \<Rightarrow> Inl e | Inr r \<Rightarrow> Inr (c # r))"
    using c by simp
  then show ?case using Cons.IH [OF s] by (simp split: sum.splits)
qed

lemma format_map_plain: "plain_text s \<Longrightarrow> format_map s m = Inr s"
  using format_map_plain_prefix [of s "[]" m] by simp

lemma scan_field_simple:
  "\<forall>c \<in> set n. c \<notin> set ''{}[]!:.'' \<Longrightarrow> scan_field (n @ CHR ''}'' # rest) = Closed n rest"
  by (induction n) auto

lemma render_field_simple:
  assumes "simple_name n"
  shows "render_field m n = py_str (IdentityDict_getitem m n)"
proof -
  have tw: "takeWhile (\<lambda>c. c \<noteq> CHR ''.'') n = n"
    using assms by (auto simp: simple_name_def)
  have "n \<noteq> []" "\<not> (\<forall>c \<in> set n. is_digit c)" "CHR ''.'' \<notin> set n"
    using assms by (auto simp: simple_name_def)
  then show ?thesis unfolding render_field_def Let_def tw by auto
qed

lemma format_map_field:
  assumes "simple_name n"
  shows "format_map (CHR ''{'' # n @ CHR ''}'' # rest) m =
       (case py_str (IdentityDict_getitem m n) of
          Inl e \<Rightarrow> Inl e
        | Inr v \<Rightarrow> (case format_map rest m of Inl e \<Rightarrow> Inl e | Inr r \<Rightarrow> Inr (v @ r)))"
proof -
  from assms obtain c cs where n: "n = c # cs" and c: "c \<noteq> CHR ''{''"
    by (cases n) (auto simp: simple_name_def)
  have scan: "scan_field ((c # cs) @ CHR ''}'' # rest) = Closed n rest"
    using assms scan_field_simple [of n rest] by (simp add: simple_name_def n)
  have "format_map (CHR ''{'' # (c # cs) @ CHR ''}'' # rest) m =
          (case render_field m n of
             Inl e \<Rightarrow> Inl e
           | Inr v \<Rightarrow> (case format_map rest m of Inl e \<Rightarrow> Inl e | Inr r \<Rightarrow> Inr (v @ r)))"
    using c scan by (simp del: scan_field.simps)
  then show ?thesis
    using render_field_simple [OF assms, of m] by (simp add: n)
qed

lemma format_map_template:
  assumes "\<forall>p \<in> set ps. simple_piece p"
    and "\<And>n. Field n \<in> set ps \<Longrightarrow> py_str (IdentityDict_getitem m n) = Inr (val n)"
  shows "format_map (template ps) m =
           Inr (concat (map (\<lambda>p. case p of Lit s \<Rightarrow> s | Field n \<Rightarrow> val n) ps))"
  using assms
proof (induction ps)
  case Nil
  then show ?case by (simp add: template_def)
next
  case (Cons p ps)
  then have IH: "format_map (template ps) m =
           Inr (concat (map (\<lambda>p. case p of Lit s \<Rightarrow> s | Field n \<Rightarrow> val n) ps))"
    by simp
  show ?case
  proof (cases p)
    case (Lit s)
    then have "plain_text s" using Cons.prems(1) by simp
    from format_map_plain_prefix [OF this, of "template ps" m]
    show ?thesis using IH Lit by (simp add: template_def)
  next
    case (Field n)
    then have sn: "simple_name n" using Cons.prems(1) by simp
    have "py_str (IdentityDict_getitem m n) = Inr (val n)"
      using Cons.prems(2) Field by simp
    with format_map_field [OF sn, of "template ps" m]
    show ?thesis using IH Field by (simp add: template_def)
  qed
qed

lemma map_of_dict_set: "map_of (dict_set d k v) = (map_of d)(k \<mapsto> v)"
  by (induction d) (auto simp: fun_eq_iff)

lemma keys_dom: "set (keys d) = dom (map_of d)"
  by (simp add: keys_def dom_map_of_conv_image_fst)

lemma keys_dict_set: "set (keys (dict_set d k v)) = insert k (set (keys d))"
  by (simp add: keys_dom map_of_dict_set)

lemma map_of_dict_merge:
  "distinct (keys b) \<Longrightarrow> map_of (dict_merge a b) = map_of a ++ map_of b"
  unfolding dict_merge_def
proof (induction b arbitrary: a)
  case Nil
  then show ?case by simp
next
  case (Cons kv b)
  obtain k v where kv: "kv = (k, v)" by (cases kv)
  from Cons.prems have d: "distinct (keys b)" and k: "map_of b k = None"
    by (auto simp: kv keys_def map_of_eq_None_iff)
  have "map_of (fold (\<lambda>kv d. dict_set d (fst kv) (snd kv)) b (dict_set a k v)) =
          (map_of a)(k \<mapsto> v) ++ map_of b"
    by (simp only: Cons.IH [OF d] map_of_dict_set)
  also have "\<dots> = map_of a ++ map_of ((k, v) # b)"
    using k by (auto simp: fun_eq_iff map_add_def split: option.splits)
  finally show ?case by (simp only: kv fold_simps comp_apply fst_conv snd_conv)
qed

lemma keys_dict_merge:
  "distinct (keys b) \<Longrightarrow> set (keys (dict_merge a b)) = set (keys a) \<union> set (keys b)"
  by (auto simp: keys_dom map_of_dict_merge)

lemma upstream_sources_simps [simp]:
  "upstream_sources [] = []"
  "upstream_sources ((p, UpstreamDependency s) # m) = (p, s) # upstream_sources m"
  "upstream_sources ((p, LiteralDependency v) # m) = upstream_sources m"
  by (simp_all add: upstream_sources_def)

lemma literal_values_simps [simp]:
  "literal_values [] = []"
  "literal_values ((p, LiteralDependency v) # m) = (p, v) # literal_values m"
  "literal_values ((p, UpstreamDependency s) # m) = literal_values m"
  by (simp_all add: literal_values_def)

lemma keys_upstream_sources: "set (keys (upstream_sources m)) \<subseteq> set (keys m)"
proof (induction m)
  case Nil
  then show ?case by (simp add: keys_def)
next
  case (Cons pd m)
  obtain p d where "pd = (p, d)" by (cases pd)
  then show ?case using Cons by (cases d) (auto simp: keys_def)
qed

lemma keys_literal_values: "set (keys (literal_values m)) \<subseteq> set (keys m)"
proof (induction m)
  case Nil
  then show ?case by (simp add: keys_def)
next
  case (Cons pd m)
  obtain p d where "pd = (p, d)" by (cases pd)
  then show ?case using Cons by (cases d) (auto simp: keys_def)
qed

lemma map_of_upstream_sources:
  "distinct (keys m) \<Longrightarrow>
     map_of (upstream_sources m) p =
       (case map_of m p of Some (UpstreamDependency s) \<Rightarrow> Some s | _ \<Rightarrow> None)"
proof (induction m)
  case Nil
  then show ?case by simp
next
  case (Cons qd m)
  obtain q d where qd: "qd = (q, d)" by (cases qd)
  have notin: "q \<notin> set (keys (upstream_sources m))"
    using Cons.prems keys_upstream_sources [of m] by (auto simp: qd keys_def)
  then have "map_of (upstream_sources m) q = None"
    by (simp add: map_of_eq_None_iff keys_def)
  then show ?case using Cons by (cases d) (auto simp: qd keys_def)
qed

lemma map_of_literal_values:
  "distinct (keys m) \<Longrightarrow>
     map_of (literal_values m) p =
       (case map_of m p of Some (LiteralDependency v) \<Rightarrow> Some v | _ \<Rightarrow> None)"
proof (induction m)
  case Nil
  then show ?case by simp
next
  case (Cons qd m)
  obtain q d where qd: "qd = (q, d)" by (cases qd)
  have notin: "q \<notin> set (keys (literal_values m))"
    using Cons.prems keys_literal_values [of m] by (auto simp: qd keys_def)
  then have "map_of (literal_values m) q = None"
    by (simp add: map_of_eq_None_iff keys_def)
  then show ?case using Cons by (cases d) (auto simp: qd keys_def)
qed

lemma distinct_literal_values: "distinct (keys m) \<Longrightarrow> distinct (keys (literal_values m))"
proof (induction m)
  case Nil
  then show ?case by (simp add: keys_def)
next
  case (Cons qd m)
  obtain q d where qd: "qd = (q, d)" by (cases qd)
  have "q \<notin> set (keys (literal_values m))"
    using Cons.prems keys_literal_values [of m] by (auto simp: qd keys_def)
  then show ?case using Cons by (cases d) (auto simp: qd keys_def)
qed

lemma distinct_upstream_sources: "distinct (keys m) \<Longrightarrow> distinct (keys (upstream_sources m))"
proof (induction m)
  case Nil
  then show ?case by (simp add: keys_def)
next
  case (Cons qd m)
  obtain q d where qd: "qd = (q, d)" by (cases qd)
  have "q \<notin> set (keys (upstream_sources m))"
    using Cons.prems keys_upstream_sources [of m] by (auto simp: qd keys_def)
  then show ?case using Cons by (cases d) (auto simp: qd keys_def)
qed

lemma format_doc_string_mapping:
  assumes "map_of (specified_docstrings self) output_name = None"
    and "map_of (parametrization self) output_name = Some m"
    and "distinct (keys m)"
    and "RESERVED_KWARG \<notin> set (keys m)"
  shows "\<exists>M. (\<forall>doc. format_doc_string self (Some doc) output_name =
                 (case format_map doc M of Inl e \<Rightarrow> Inl e | Inr s \<Rightarrow> Inr (Some s))) \<and>
             (\<forall>n. IdentityDict_getitem M n =
                 (if n = ''output_name'' then PStr output_name
                  else (case map_of m n of
                          Some (LiteralDependency v) \<Rightarrow> v
                        | Some (UpstreamDependency s) \<Rightarrow> PStr s
                        | None \<Rightarrow> PStr n)))"
proof -
  let ?up = "map (\<lambda>(parameter, s). (parameter, PStr s)) (upstream_sources m)"
  let ?merged = "dict_merge ?up (literal_values m)"
  let ?M = "(RESERVED_KWARG, PStr output_name) # ?merged"
  have dl: "distinct (keys (literal_values m))"
    using assms(3) by (rule distinct_literal_values)
  have "keys ?up = keys (upstream_sources m)"
    by (simp add: keys_def case_prod_unfold comp_def)
  then have "set (keys ?merged) \<subseteq> set (keys m)"
    using keys_upstream_sources [of m] keys_literal_values [of m]
    by (simp add: keys_dict_merge [OF dl])
  then have res: "RESERVED_KWARG \<notin> set (keys ?merged)"
    using assms(4) by blast
  have fmt: "\<forall>doc. format_doc_string self (Some doc) output_name =
                 (case format_map doc ?M of Inl e \<Rightarrow> Inl e | Inr s \<Rightarrow> Inr (Some s))"
    using assms(1,2) res by (simp add: format_doc_string_def Let_def)
  have up: "map_of ?up n = map_option PStr (map_of (upstream_sources m) n)" for n
    by (simp add: map_of_map)
  have "IdentityDict_getitem ?M n =
          (if n = ''output_name'' then PStr output_name
           else (case map_of m n of
                   Some (LiteralDependency v) \<Rightarrow> v
                 | Some (UpstreamDependency s) \<Rightarrow> PStr s
                 | None \<Rightarrow> PStr n))" for n
    unfolding IdentityDict_getitem_def
    by (auto simp: RESERVED_KWARG_def map_of_dict_merge [OF dl] map_add_def up
          map_of_upstream_sources [OF assms(3)] map_of_literal_values [OF assms(3)]
        split: option.splits ParametrizedDependency.splits)
  with fmt show ?thesis by blast
qed

lemma format_doc_string_template:
  assumes "map_of (specified_docstrings self) output_name = None"
    and "map_of (parametrization self) output_name = Some m"
    and "distinct (keys m)"
    and "RESERVED_KWARG \<notin> set (keys m)"
    and "\<forall>p \<in> set ps. simple_piece p"
    and "\<forall>(p, d) \<in> set m. \<forall>v. d = LiteralDependency v \<longrightarrow> py_str v = Inr (str_of v)"
  shows "format_doc_string self (Some (template ps)) output_name =
           Inr (Some (concat (map (substitute str_of output_name m) ps)))"
proof -
  from format_doc_string_mapping [OF assms(1-4)] obtain M
    where fmt: "\<And>doc. format_doc_string self (Some doc) output_name =
                 (case format_map doc M of Inl e \<Rightarrow> Inl e | Inr s \<Rightarrow> Inr (Some s))"
      and get: "\<And>n. IdentityDict_getitem M n =
                 (if n = ''output_name'' then PStr output_name
                  else (case map_of m n of
                          Some (LiteralDependency v) \<Rightarrow> v
                        | Some (UpstreamDependency s) \<Rightarrow> PStr s
                        | None \<Rightarrow> PStr n))"
    by blast
  have val: "py_str (IdentityDict_getitem M n) = Inr (substitute str_of output_name m (Field n))" for n
  proof (cases "map_of m n")
    case None
    then show ?thesis by (simp add: get)
  next
    case (Some d)
    then have mem: "(n, d) \<in> set m" by (rule map_of_SomeD)
    show ?thesis
    proof (cases d)
      case (LiteralDependency v)
      then have "py_str v = Inr (str_of v)" using assms(6) mem by blast
      then show ?thesis using Some LiteralDependency by (simp add: get)
    next
      case (UpstreamDependency s)
      then show ?thesis using Some by (simp add: get)
    qed
  qed
  have "format_map (template ps) M =
          Inr (concat (map (\<lambda>p. case p of Lit s \<Rightarrow> s
                 | Field n \<Rightarrow> substitute str_of output_name m (Field n)) ps))"
    using assms(5) val by (intro format_map_template) auto
  moreover have "(\<lambda>p. case p of Lit s \<Rightarrow> s | Field n \<Rightarrow> substitute str_of output_name m (Field n)) =
                 substitute str_of output_name m"
    by (auto simp: fun_eq_iff split: piece.splits)
  ultimately show ?thesis by (simp add: fmt)
qed

lemma plain_text_concat:
  "(\<forall>s \<in> set ss. plain_text s) \<Longrightarrow> plain_text (concat ss)"
  by (induction ss) (simp_all add: plain_text_def)

lemma format_doc_string_plain:
  assumes first: "format_doc_string self doc output_name = Inr (Some s)"
    and none: "map_of (specified_docstrings self) output_name = None"
    and plain: "plain_text s"
  shows "format_doc_string self (Some s) output_name = Inr (Some s)"
proof -
  from first none obtain t where doc: "doc = Some t"
    by (cases doc) (simp_all add: format_doc_string_def)
  from first none doc obtain m' where m': "map_of (parametrization self) output_name = Some m'"
    by (cases "map_of (parametrization self) output_name") (simp_all add: format_doc_string_def)
  let ?merged = "dict_merge (map (\<lambda>(parameter, s). (parameter, PStr s)) (upstream_sources m'))
                   (literal_values m')"
  have res: "RESERVED_KWARG \<notin> set (keys ?merged)"
  proof
    assume "RESERVED_KWARG \<in> set (keys ?merged)"
    then have "format_doc_string self doc output_name = Inl TypeError"
      using none doc m' by (simp add: format_doc_string_def Let_def)
    with first show False by simp
  qed
  have "format_map s ((RESERVED_KWARG, PStr output_name) # ?merged) = Inr s"
    using plain by (rule format_map_plain)
  then show ?thesis using none m' res by (simp add: format_doc_string_def Let_def)
qed

lemma format_doc_string_override:
  assumes "format_doc_string self doc output_name = Inr (Some s)"
    and "map_of (specified_docstrings self) output_name \<noteq> None"
  shows "format_doc_string self (Some s) output_name = Inr (Some s)"
proof -
  from assms(2) obtain d where d: "map_of (specified_docstrings self) output_name = Some d"
    by blast
  with assms(1) have "s = d" by (simp add: format_doc_string_def)
  with d show ?thesis by (simp add: format_doc_string_def)
qed

lemma format_doc_string_template_twice:
  assumes "map_of (specified_docstrings self) output_name = None"
    and "map_of (parametrization self) output_name = Some m"
    and "distinct (keys m)"
    and "RESERVED_KWARG \<notin> set (keys m)"
    and "\<forall>p \<in> set ps. simple_piece p"
    and "\<forall>(p, d) \<in> set m. \<forall>v. d = LiteralDependency v \<longrightarrow> py_str v = Inr (str_of v)"
    and "\<forall>p \<in> set ps. plain_text (substitute str_of output_name m p)"
  shows "format_doc_string self (Some (template ps)) output_name =
           Inr (Some (concat (map (substitute str_of output_name m) ps))) \<and>
         format_doc_string self (Some (concat (map (substitute str_of output_name m) ps))) output_name =
           Inr (Some (concat (map (substitute str_of output_name m) ps)))"
proof -
  let ?once = "concat (map (substitute str_of output_name m) ps)"
  have once: "format_doc_string self (Some (template ps)) output_name = Inr (Some ?once)"
    using assms(1-6) by (rule format_doc_string_template)
  have "plain_text ?once"
    using assms(7) by (intro plain_text_concat) simp
  with once assms(1) have "format_doc_string self (Some ?once) output_name = Inr (Some ?once)"
    by (rule format_doc_string_plain)
  with once show ?thesis by simp
qed

text \<open>
  Claim C3, as amended. With no explicit override and a template made of text without
  braces and of simple placeholders, \<^verbatim>\<open>format_doc_string\<close> replaces \<^verbatim>\<open>{output_name}\<close> by the name
  of the output, the placeholder of a parameter bound to a literal by the rendering of
  the literal, the placeholder of a parameter bound to a reference by the referenced
  name, and any other placeholder by its bare name, without braces; it does not raise.
\<close>

theorem format_doc_string_substitutes:
  assumes "map_of (specified_docstrings self) output_name = None"
    and "map_of (parametrization self) output_name = Some m"
    and "distinct (keys m)"
    and "RESERVED_KWARG \<notin> set (keys m)"
    and "\<forall>p \<in> set ps. simple_piece p"
    and "\<forall>(p, d) \<in> set m. \<forall>v. d = LiteralDependency v \<longrightarrow> py_str v = Inr (str_of v)"
  shows "format_doc_string self (Some (template ps)) output_name =
           Inr (Some (concat (map (substitute str_of output_name m) ps)))"
  using assms by (rule format_doc_string_template)

theorem format_doc_string_substitutes_witness:
  "format_doc_string
     \<lparr>parametrization =
        [(''out'', [(''a'', LiteralDependency (PStr ''bar'')), (''b'', UpstreamDependency ''n2'')])],
      specified_docstrings = []\<rparr>
     (Some ''Adding {a} to {b} for {output_name}; {other} stays'') ''out'' =
   Inr (Some ''Adding bar to n2 for out; other stays'')"
proof -
  let ?m = "[(''a'', LiteralDependency (PStr ''bar'')), (''b'', UpstreamDependency ''n2'')]"
  let ?self = "\<lparr>parametrization = [(''out'', ?m)], specified_docstrings = []\<rparr>"
  let ?ps = "[Lit ''Adding '', Field ''a'', Lit '' to '', Field ''b'', Lit '' for '',
              Field ''output_name'', Lit ''; '', Field ''other'', Lit '' stays'']"
  have "format_doc_string ?self (Some (template ?ps)) ''out'' =
          Inr (Some (concat (map (substitute (\<lambda>v. ''bar'') ''out'' ?m) ?ps)))"
    by (rule format_doc_string_substitutes)
       (simp_all add: keys_def RESERVED_KWARG_def plain_text_def simple_name_def is_digit_def)
  then show ?thesis by (simp add: template_def)
qed

text \<open>
  Claim C3 as stated fails: a placeholder without a matching key is not left with its
  braces; \<^verbatim>\<open>IdentityDict.__missing__\<close> returns the key and the braces are gone. And a
  positional placeholder raises: \<^verbatim>\<open>format_map\<close> refuses it with a ValueError.
\<close>

theorem format_doc_string_unknown_placeholder_counterexample:
  "format_doc_string \<lparr>parametrization = [(''out'', [])], specified_docstrings = []\<rparr>
     (Some ''see {placeholder}'') ''out'' = Inr (Some ''see placeholder'') \<and>
   format_doc_string \<lparr>parametrization = [(''out'', [])], specified_docstrings = []\<rparr>
     (Some ''see {0}'') ''out'' = Inl ValueError"
  by (simp add: format_doc_string_def dict_merge_def keys_def RESERVED_KWARG_def
        render_field_def IdentityDict_getitem_def is_digit_def)

text \<open>
  Claim C9, as amended. Formatting the once-formatted docstring again returns it
  unchanged whenever an explicit override is given or the once-formatted docstring has no
  brace. This is the case for every template made of text without braces and of simple
  placeholders whose replacements have no brace, in particular for placeholders without
  a matching key.
\<close>

theorem format_doc_string_idempotent:
  "(format_doc_string self doc output_name = Inr (Some s) \<and>
      (map_of (specified_docstrings self) output_name \<noteq> None \<or> plain_text s) \<longrightarrow>
      format_doc_string self (Some s) output_name = Inr (Some s)) \<and>
   (map_of (specified_docstrings self) output_name = None \<and>
    map_of (parametrization self) output_name = Some m \<and>
    distinct (keys m) \<and> RESERVED_KWARG \<notin> set (keys m) \<and>
    (\<forall>p \<in> set ps. simple_piece p) \<and>
    (\<forall>(p, d) \<in> set m. \<forall>v. d = LiteralDependency v \<longrightarrow> py_str v = Inr (str_of v)) \<and>
    (\<forall>p \<in> set ps. plain_text (substitute str_of output_name m p)) \<longrightarrow>
      format_doc_string self (Some (template ps)) output_name =
        Inr (Some (concat (map (substitute str_of output_name m) ps))) \<and>
      format_doc_string self (Some (concat (map (substitute str_of output_name m) ps))) output_name =
        Inr (Some (concat (map (substitute str_of output_name m) ps))))"
proof (rule conjI; rule impI; (elim conjE)?)
  assume first: "format_doc_string self doc output_name = Inr (Some s)"
    and cases: "map_of (specified_docstrings self) output_name \<noteq> None \<or> plain_text s"
  show "format_doc_string self (Some s) output_name = Inr (Some s)"
  proof (cases "map_of (specified_docstrings self) output_name = None")
    case True
    with cases have "plain_text s" by simp
    with first True show ?thesis by (rule format_doc_string_plain)
  next
    case False
    with first show ?thesis by (rule format_doc_string_override)
  qed
next
  assume "map_of (specified_docstrings self) output_name = None"
    and "map_of (parametrization self) output_name = Some m"
    and "distinct (keys m)"
    and "RESERVED_KWARG \<notin> set (keys m)"
    and "\<forall>p \<in> set ps. simple_piece p"
    and "\<forall>(p, d) \<in> set m. \<forall>v. d = LiteralDependency v \<longrightarrow> py_str v = Inr (str_of v)"
    and "\<forall>p \<in> set ps. plain_text (substitute str_of output_name m p)"
  then show "format_doc_string self (Some (template ps)) output_name =
        Inr (Some (concat (map (substitute str_of output_name m) ps))) \<and>
      format_doc_string self (Some (concat (map (substitute str_of output_name m) ps))) output_name =
        Inr (Some (concat (map (substitute str_of output_name m) ps)))"
    by (rule format_doc_string_template_twice)
qed

theorem format_doc_string_idempotent_witness:
  "format_doc_string \<lparr>parametrization = [(''out'', [])], specified_docstrings = []\<rparr>
     (Some ''see {x} for {output_name}'') ''out'' = Inr (Some ''see x for out'') \<and>
   format_doc_string \<lparr>parametrization = [(''out'', [])], specified_docstrings = []\<rparr>
     (Some ''see x for out'') ''out'' = Inr (Some ''see x for out'')"
proof -
  let ?self = "\<lparr>parametrization = [(''out'', [])], specified_docstrings = []\<rparr>"
  let ?ps = "[Lit ''see '', Field ''x'', Lit '' for '', Field ''output_name'']"
  note inst = format_doc_string_idempotent
                [where self = ?self and output_name = "''out''" and m = "[]" and ps = ?ps
                   and str_of = "\<lambda>v. []" and doc = "Some (template ?ps)"
                   and s = "''see x for out''"]
  have once: "format_doc_string ?self (Some (template ?ps)) ''out'' = Inr (Some ''see x for out'')"
    using inst [THEN conjunct2]
    by (simp add: keys_def RESERVED_KWARG_def plain_text_def simple_name_def is_digit_def)
  have "plain_text ''see x for out''" by (simp add: plain_text_def)
  with once inst [THEN conjunct1]
  have "format_doc_string ?self (Some ''see x for out'') ''out'' = Inr (Some ''see x for out'')"
    by blast
  with once show ?thesis by (simp add: template_def)
qed

text \<open>
  Claim C9 as stated fails: an escaped pair of braces is unescaped by the first formatting
  and read as a placeholder by the second.
\<close>

theorem format_doc_string_idempotent_counterexample:
  "format_doc_string \<lparr>parametrization = [(''out'', [])], specified_docstrings = []\<rparr>
     (Some ''{{x}}'') ''out'' = Inr (Some ''{x}'') \<and>
   format_doc_string \<lparr>parametrization = [(''out'', [])], specified_docstrings = []\<rparr>
     (Some ''{x}'') ''out'' = Inr (Some ''x'')"
  by (simp add: format_doc_string_def dict_merge_def keys_def RESERVED_KWARG_def
        render_field_def IdentityDict_getitem_def is_digit_def)

section \<open>The input types of a parameterized node\<close>

lemma keys_split:
  "set (keys m) = set (keys (upstream_sources m)) \<union> set (keys (literal_values m))"
proof (induction m)
  case Nil
  then show ?case by (simp add: keys_def)
next
  case (Cons qd m)
  obtain q d where qd: "qd = (q, d)" by (cases qd)
  show ?case using Cons by (cases d) (auto simp: qd keys_def)
qed

lemma map_of_new_input_types:
  assumes "distinct (keys m)"
  shows "map_of (new_input_types (upstream_sources m) (literal_values m) its acc) =
           map_of acc ++ map_of (rev (renamed_inputs m its))"
proof (induction its arbitrary: acc)
  case Nil
  then show ?case by (simp add: renamed_inputs_def)
next
  case (Cons pt its)
  obtain p t where pt: "pt = (p, t)" by (cases pt)
  show ?case
  proof (cases "map_of (upstream_sources m) p")
    case None
    show ?thesis
    proof (cases "p \<in> set (keys (literal_values m))")
      case True
      then show ?thesis using None Cons.IH by (simp add: pt renamed_inputs_def)
    next
      case False
      have "map_of (new_input_types (upstream_sources m) (literal_values m) (pt # its) acc) =
              (map_of acc)(p \<mapsto> t) ++ map_of (rev (renamed_inputs m its))"
        using None False by (simp only: pt new_input_types.simps option.case not_False_eq_True if_True Cons.IH map_of_dict_set)
      moreover have "renamed_inputs m (pt # its) = (p, t) # renamed_inputs m its"
        using None False by (simp add: pt renamed_inputs_def input_name_def)
      ultimately show ?thesis by (simp add: fun_eq_iff map_add_def split: option.splits)
    qed
  next
    case (Some s)
    then have "map_of m p = Some (UpstreamDependency s)"
      using map_of_upstream_sources [OF assms, of p]
      by (auto split: option.splits ParametrizedDependency.splits)
    then have "map_of (literal_values m) p = None"
      using map_of_literal_values [OF assms, of p] by simp
    then have notlit: "p \<notin> set (keys (literal_values m))"
      by (simp add: map_of_eq_None_iff keys_def)
    have "map_of (new_input_types (upstream_sources m) (literal_values m) (pt # its) acc) =
              (map_of acc)(s \<mapsto> t) ++ map_of (rev (renamed_inputs m its))"
      using Some by (simp only: pt new_input_types.simps option.case Cons.IH map_of_dict_set)
    moreover have "renamed_inputs m (pt # its) = (s, t) # renamed_inputs m its"
      using Some notlit by (simp add: pt renamed_inputs_def input_name_def)
    ultimately show ?thesis by (simp add: fun_eq_iff map_add_def split: option.splits)
  qed
qed

lemma keys_new_input_types:
  assumes "distinct (keys m)"
  shows "set (keys (new_input_types (upstream_sources m) (literal_values m) its [])) =
           input_name m ` {p \<in> set (keys its). p \<notin> set (keys (literal_values m))}"
proof -
  have "set (keys (new_input_types (upstream_sources m) (literal_values m) its [])) =
          fst ` set (renamed_inputs m its)"
    by (simp add: keys_dom map_of_new_input_types [OF assms] dom_map_of_conv_image_fst)
  also have "\<dots> = input_name m ` {p \<in> set (keys its). p \<notin> set (keys (literal_values m))}"
    by (force simp: renamed_inputs_def keys_def image_iff)
  finally show ?thesis .
qed

lemma input_name_reference:
  assumes "distinct (keys m)" and "(p, UpstreamDependency s) \<in> set m"
  shows "input_name m p = s" and "p \<notin> set (keys (literal_values m))"
proof -
  have m: "map_of m p = Some (UpstreamDependency s)"
    using assms by (simp add: keys_def)
  then show "input_name m p = s"
    by (simp add: input_name_def map_of_upstream_sources [OF assms(1)])
  have "map_of (literal_values m) p = None"
    using m by (simp add: map_of_literal_values [OF assms(1)])
  then show "p \<notin> set (keys (literal_values m))"
    by (simp add: map_of_eq_None_iff keys_def)
qed

lemma input_name_untouched:
  assumes "p \<notin> set (keys m)"
  shows "input_name m p = p" and "p \<notin> set (keys (literal_values m))"
proof -
  have "p \<notin> set (keys (upstream_sources m))" and l: "p \<notin> set (keys (literal_values m))"
    using assms keys_split [of m] by auto
  then have "map_of (upstream_sources m) p = None"
    by (simp add: map_of_eq_None_iff keys_def)
  then show "input_name m p = p" by (simp add: input_name_def)
  show "p \<notin> set (keys (literal_values m))" by (rule l)
qed

lemma input_name_cases:
  assumes "distinct (keys m)" and "p \<notin> set (keys (literal_values m))"
  shows "(p, UpstreamDependency (input_name m p)) \<in> set m \<or>
         (input_name m p = p \<and> p \<notin> set (keys m))"
proof (cases "map_of (upstream_sources m) p")
  case None
  then have "p \<notin> set (keys (upstream_sources m))"
    by (simp add: map_of_eq_None_iff keys_def)
  with assms(2) have "p \<notin> set (keys m)" using keys_split [of m] by auto
  with None show ?thesis by (simp add: input_name_def)
next
  case (Some s)
  then have "map_of m p = Some (UpstreamDependency s)"
    using map_of_upstream_sources [OF assms(1), of p]
    by (auto split: option.splits ParametrizedDependency.splits)
  then have "(p, UpstreamDependency s) \<in> set m" by (rule map_of_SomeD)
  with Some show ?thesis by (simp add: input_name_def)
qed

lemma values_new_input_types:
  assumes "distinct (keys m)" and "distinct (keys its)"
    and inj: "inj_on (input_name m) {p \<in> set (keys its). p \<notin> set (keys (literal_values m))}"
    and mem: "(p, t) \<in> set its" and nl: "p \<notin> set (keys (literal_values m))"
  shows "map_of (new_input_types (upstream_sources m) (literal_values m) its []) (input_name m p) =
           Some t"
proof -
  let ?f = "filter (\<lambda>pt. fst pt \<notin> set (keys (literal_values m))) its"
  have df: "distinct (map fst ?f)"
    using assms(2) by (simp add: keys_def distinct_map_filter)
  have "set (map fst ?f) \<subseteq> {p \<in> set (keys its). p \<notin> set (keys (literal_values m))}"
    by (auto simp: keys_def)
  then have inj': "inj_on (input_name m) (set (map fst ?f))"
    using inj by (rule inj_on_subset [rotated])
  have "distinct (map (input_name m) (map fst ?f))"
    by (rule distinct_map [THEN iffD2, OF conjI [OF df inj']])
  moreover have "map fst (renamed_inputs m its) = map (input_name m) (map fst ?f)"
    by (simp add: renamed_inputs_def comp_def)
  ultimately have "distinct (map fst (rev (renamed_inputs m its)))"
    by (simp add: rev_map [symmetric])
  moreover have "(input_name m p, t) \<in> set (rev (renamed_inputs m its))"
    using mem nl by (force simp: renamed_inputs_def)
  ultimately have "map_of (rev (renamed_inputs m its)) (input_name m p) = Some t"
    by (rule map_of_is_SomeI)
  then show ?thesis by (simp add: map_of_new_input_types [OF assms(1)])
qed

lemma format_all_member:
  "format_all self doc outs = Inr u \<Longrightarrow> output \<in> set outs \<Longrightarrow>
     \<exists>d. format_doc_string self doc output = Inr d"
  by (induction outs) (auto split: sum.splits)

lemma parameterize_validate_formats:
  assumes "parameterize_validate self fn = Inr u"
  shows "format_all self (fn_doc fn) (keys (parametrization self)) = Inr ()"
proof (cases "format_all self (fn_doc fn) (keys (parametrization self))")
  case (Inl e)
  then show ?thesis using assms
    by (cases e) (simp_all add: parameterize_validate_def)
next
  case (Inr v)
  then show ?thesis by simp
qed

lemma parameterize_nodes_all2:
  assumes "\<forall>(output, m) \<in> set ps. \<exists>d. format_doc_string self (fn_doc fn) output = Inr d"
  shows "\<exists>ns. parameterize_nodes self node' fn ps = Inr ns \<and>
           list_all2 (\<lambda>om n. parameterize_node self node' fn (fst om) (snd om) = Inr n) ps ns"
  using assms
proof (induction ps)
  case Nil
  then show ?case by simp
next
  case (Cons om ps)
  obtain out m where om: "om = (out, m)" by (cases om)
  from Cons.prems om obtain d where "format_doc_string self (fn_doc fn) out = Inr d" by auto
  then obtain n where n: "parameterize_node self node' fn out m = Inr n"
    by (simp add: parameterize_node_def Let_def)
  from Cons obtain ns where ns: "parameterize_nodes self node' fn ps = Inr ns"
    "list_all2 (\<lambda>om n. parameterize_node self node' fn (fst om) (snd om) = Inr n) ps ns"
    by auto
  show ?case using n ns by (simp add: om)
qed

lemma parameterize_node_fields:
  assumes "parameterize_node self node' fn output m = Inr n"
  shows "name n = output" "node_type n = node_type node'" "tags n = tags node'"
    "input_types n =
       new_input_types (upstream_sources m) (literal_values m) (input_types node') []"
    "callable n =
       partial (replacement_function (callable node') (upstream_sources m) (literal_values m))
         (literal_values m)"
  using assms by (auto simp: parameterize_node_def Let_def split: sum.splits)

lemma list_all2_map_eq:
  "list_all2 (\<lambda>x y. f y = g x) xs ys \<Longrightarrow> map f ys = map g xs"
  by (induction xs ys rule: list_all2_induct) simp_all

text \<open>
  Claim C2, as amended. For a parameterization that passes \<^verbatim>\<open>validate\<close> (the mappings
  and the input types being dicts, their keys are distinct), \<^verbatim>\<open>expand_node\<close> returns one node
  per declared output, in order and under the name of the output. Each node has the
  declared type and the tags of the original node. Its input types have a key for the
  referenced name of every parameter bound to a reference and for every untouched
  parameter, and no other key: the name of a parameter bound to a literal is a key only
  when it is also a referenced name. When no two parameters that are not bound to a
  literal have the same input name, each key holds the declared type of its parameter.
\<close>

theorem parameterize_expand_node_nodes:
  assumes "parameterize_validate self fn = Inr ()"
    and "\<forall>(output, m) \<in> set (parametrization self). distinct (keys m)"
    and "distinct (keys (input_types node'))"
  shows "\<exists>ns. parameterize_expand_node self node' config fn = Inr ns \<and>
           map name ns = keys (parametrization self) \<and>
           list_all2 (\<lambda>(output, m) n.
               node_type n = node_type node' \<and> tags n = tags node' \<and>
               (\<forall>p s. (p, UpstreamDependency s) \<in> set m \<and> p \<in> set (keys (input_types node')) \<longrightarrow>
                  s \<in> set (keys (input_types n))) \<and>
               (\<forall>p. p \<notin> set (keys m) \<and> p \<in> set (keys (input_types node')) \<longrightarrow>
                  p \<in> set (keys (input_types n))) \<and>
               (\<forall>k \<in> set (keys (input_types n)).
                  (\<exists>p \<in> set (keys (input_types node')). (p, UpstreamDependency k) \<in> set m) \<or>
                  (k \<in> set (keys (input_types node')) \<and> k \<notin> set (keys m))) \<and>
               (inj_on (input_name m)
                  {p \<in> set (keys (input_types node')). p \<notin> set (keys (literal_values m))} \<longrightarrow>
                  (\<forall>(p, t) \<in> set (input_types node'). p \<notin> set (keys (literal_values m)) \<longrightarrow>
                     map_of (input_types n) (input_name m p) = Some t)))
             (parametrization self) ns"
proof -
  let ?its = "input_types node'"
  have "format_all self (fn_doc fn) (keys (parametrization self)) = Inr ()"
    using assms(1) by (rule parameterize_validate_formats)
  then have "\<forall>(output, m) \<in> set (parametrization self).
               \<exists>d. format_doc_string self (fn_doc fn) output = Inr d"
    using format_all_member by (fastforce simp: keys_def)
  from parameterize_nodes_all2 [OF this, of node'] obtain ns
    where ns: "parameterize_nodes self node' fn (parametrization self) = Inr ns"
      and all2: "list_all2 (\<lambda>om n. parameterize_node self node' fn (fst om) (snd om) = Inr n)
                   (parametrization self) ns"
    by blast
  have names: "map name ns = keys (parametrization self)"
    unfolding keys_def
    by (rule list_all2_map_eq, rule list_all2_mono [OF all2])
       (simp add: parameterize_node_fields(1))
  have "list_all2 (\<lambda>(output, m) n.
               node_type n = node_type node' \<and> tags n = tags node' \<and>
               (\<forall>p s. (p, UpstreamDependency s) \<in> set m \<and> p \<in> set (keys ?its) \<longrightarrow>
                  s \<in> set (keys (input_types n))) \<and>
               (\<forall>p. p \<notin> set (keys m) \<and> p \<in> set (keys ?its) \<longrightarrow>
                  p \<in> set (keys (input_types n))) \<and>
               (\<forall>k \<in> set (keys (input_types n)).
                  (\<exists>p \<in> set (keys ?its). (p, UpstreamDependency k) \<in> set m) \<or>
                  (k \<in> set (keys ?its) \<and> k \<notin> set (keys m))) \<and>
               (inj_on (input_name m)
                  {p \<in> set (keys ?its). p \<notin> set (keys (literal_values m))} \<longrightarrow>
                  (\<forall>(p, t) \<in> set ?its. p \<notin> set (keys (literal_values m)) \<longrightarrow>
                     map_of (input_types n) (input_name m p) = Some t)))
             (parametrization self) ns"
  proof (rule list.rel_mono_strong [OF all2])
    fix om n
    assume mem: "om \<in> set (parametrization self)" and "n \<in> set ns"
      and node: "parameterize_node self node' fn (fst om) (snd om) = Inr n"
    obtain out m where om: "om = (out, m)" by (cases om)
    have dm: "distinct (keys m)" using assms(2) mem om by auto
    note f = parameterize_node_fields [OF node [unfolded om fst_conv snd_conv]]
    have ks: "set (keys (input_types n)) =
                input_name m ` {p \<in> set (keys ?its). p \<notin> set (keys (literal_values m))}"
      by (simp add: f(4) keys_new_input_types [OF dm])
    have a: "s \<in> set (keys (input_types n))"
      if "(p, UpstreamDependency s) \<in> set m" "p \<in> set (keys ?its)" for p s
      using that input_name_reference [OF dm that(1)] by (force simp: ks)
    have b: "p \<in> set (keys (input_types n))"
      if "p \<notin> set (keys m)" "p \<in> set (keys ?its)" for p
      using that input_name_untouched [OF that(1)] by (force simp: ks)
    have c: "(\<exists>p \<in> set (keys ?its). (p, UpstreamDependency k) \<in> set m) \<or>
             (k \<in> set (keys ?its) \<and> k \<notin> set (keys m))"
      if "k \<in> set (keys (input_types n))" for k
    proof -
      from that ks obtain p where p: "p \<in> set (keys ?its)" "p \<notin> set (keys (literal_values m))"
        "k = input_name m p" by auto
      from input_name_cases [OF dm p(2)] p show ?thesis by auto
    qed
    have d: "map_of (input_types n) (input_name m p) = Some t"
      if "inj_on (input_name m) {p \<in> set (keys ?its). p \<notin> set (keys (literal_values m))}"
        "(p, t) \<in> set ?its" "p \<notin> set (keys (literal_values m))" for p t
      using values_new_input_types [OF dm assms(3) that] by (simp add: f(4))
    show "(case om of (output, m) \<Rightarrow> \<lambda>n.
               node_type n = node_type node' \<and> tags n = tags node' \<and>
               (\<forall>p s. (p, UpstreamDependency s) \<in> set m \<and> p \<in> set (keys ?its) \<longrightarrow>
                  s \<in> set (keys (input_types n))) \<and>
               (\<forall>p. p \<notin> set (keys m) \<and> p \<in> set (keys ?its) \<longrightarrow>
                  p \<in> set (keys (input_types n))) \<and>
               (\<forall>k \<in> set (keys (input_types n)).
                  (\<exists>p \<in> set (keys ?its). (p, UpstreamDependency k) \<in> set m) \<or>
                  (k \<in> set (keys ?its) \<and> k \<notin> set (keys m))) \<and>
               (inj_on (input_name m)
                  {p \<in> set (keys ?its). p \<notin> set (keys (literal_values m))} \<longrightarrow>
                  (\<forall>(p, t) \<in> set ?its. p \<notin> set (keys (literal_values m)) \<longrightarrow>
                     map_of (input_types n) (input_name m p) = Some t))) n"
      unfolding om prod.case
      using f(2,3) a b c d by blast
  qed
  with ns names show ?thesis by (auto simp: parameterize_expand_node_def)
qed

theorem parameterize_expand_node_nodes_witness:
  "map_sum id (map (\<lambda>n. (name n, node_type n, input_types n, tags n, documentation n)))
     (parameterize_expand_node
        \<lparr>parametrization =
           [(''out1'', [(''a'', LiteralDependency (PInt 1)), (''b'', UpstreamDependency ''n2'')])],
         specified_docstrings = []\<rparr>
        example_node [] example_fn) =
   Inr [(''out1'', TInt, [(''n2'', TStr)], [(''module'', PStr ''example'')],
         Some ''Adds 1 to n2 to create out1.'')]"
proof -
  let ?self = "\<lparr>parametrization =
           [(''out1'', [(''a'', LiteralDependency (PInt 1)), (''b'', UpstreamDependency ''n2'')])],
         specified_docstrings = []\<rparr>"
  have valid: "parameterize_validate ?self example_fn = Inr ()"
    by (simp add: example_eval)
  have "\<forall>(output, m) \<in> set (parametrization ?self). distinct (keys m)"
    by (simp add: keys_def)
  moreover have "distinct (keys (input_types example_node))"
    by (simp add: keys_def example_node_def)
  ultimately obtain ns
    where ns: "parameterize_expand_node ?self example_node [] example_fn = Inr ns"
      and names: "map name ns = keys (parametrization ?self)"
    using parameterize_expand_node_nodes [OF valid, of example_node "[]"] by blast
  from names obtain n where n: "ns = [n]" "name n = ''out1''"
    by (cases ns) (auto simp: keys_def)
  from ns have "parameterize_node ?self example_node example_fn ''out1''
        [(''a'', LiteralDependency (PInt 1)), (''b'', UpstreamDependency ''n2'')] = Inr n"
    by (simp add: parameterize_expand_node_def n split: sum.splits)
  then have "node_type n = TInt" "input_types n = [(''n2'', TStr)]"
    "tags n = [(''module'', PStr ''example'')]"
    "documentation n = Some ''Adds 1 to n2 to create out1.''"
    by (auto simp: example_eval split: sum.splits)
  with ns n show ?thesis by simp
qed

text \<open>
  Claim C2 as stated fails: when a parameter bound to a reference names, as its upstream,
  a node called like a parameter bound to a literal, the name of the literal-bound
  parameter is a key of the input types.
\<close>

theorem parameterize_literal_name_counterexample:
  "parameterize_validate
     \<lparr>parametrization =
        [(''out1'', [(''a'', LiteralDependency (PInt 1)), (''b'', UpstreamDependency ''a'')])],
      specified_docstrings = []\<rparr> example_fn = Inr () \<and>
   map_sum id (map input_types)
     (parameterize_expand_node
        \<lparr>parametrization =
           [(''out1'', [(''a'', LiteralDependency (PInt 1)), (''b'', UpstreamDependency ''a'')])],
         specified_docstrings = []\<rparr>
        example_node [] example_fn) =
   Inr [ [(''a'', TStr)] ]"
  by (simp add: example_eval)

section \<open>The callable of a parameterized node\<close>

text \<open>
  The renaming in general. When the referenced names are pairwise different, none of
  them is the name of a parameter bound to a reference, and each is supplied, the
  callable of the node calls the callable of the original node with the literals under
  their parameter names, the values supplied under the referenced names under the
  parameter names bound to them, and every other supplied argument as it is.
\<close>

lemma map_of_dict_del: "map_of (dict_del d k) = (map_of d)(k := None)"
  by (induction d) (auto simp: dict_del_def fun_eq_iff)

lemma keys_dict_set_list:
  "keys (dict_set d k v) = (if k \<in> set (keys d) then keys d else keys d @ [k])"
  by (induction d) (force simp: keys_def)+

lemma distinct_dict_set: "distinct (keys d) \<Longrightarrow> distinct (keys (dict_set d k v))"
  by (simp add: keys_dict_set_list)

lemma distinct_dict_del: "distinct (keys d) \<Longrightarrow> distinct (keys (dict_del d k))"
  by (simp add: dict_del_def keys_def distinct_map_filter)

lemma distinct_dict_merge: "distinct (keys a) \<Longrightarrow> distinct (keys (dict_merge a b))"
  unfolding dict_merge_def
  by (induction b arbitrary: a) (simp_all add: distinct_dict_set)

lemma inject_literals_merge: "inject_literals lit kw = dict_merge kw lit"
  by (simp add: inject_literals_def dict_merge_def case_prod_unfold)

lemma rename_upstream_map:
  assumes "distinct (map fst up)" and "distinct (map snd up)"
    and "set (map fst up) \<inter> set (map snd up) = {}"
    and "\<forall>s \<in> set (map snd up). s \<in> dom (map_of kw)"
    and "distinct (keys kw)"
  shows "\<exists>kw'. rename_upstream up kw = Inr kw' \<and> distinct (keys kw') \<and>
           (\<forall>k. map_of kw' k =
              (case map_of up k of
                 Some s \<Rightarrow> map_of kw s
               | None \<Rightarrow> if k \<in> set (map snd up) then None else map_of kw k))"
  using assms
proof (induction up arbitrary: kw)
  case Nil
  then show ?case by simp
next
  case (Cons ps up)
  obtain p s where ps: "ps = (p, s)" by (cases ps)
  from Cons.prems(4) ps obtain v where v: "map_of kw s = Some v" by auto
  let ?kw1 = "dict_set (dict_del kw s) p v"
  have m1: "map_of ?kw1 = ((map_of kw)(s := None))(p \<mapsto> v)"
    by (simp add: map_of_dict_set map_of_dict_del)
  have d1: "distinct (keys ?kw1)"
    using Cons.prems(5) by (intro distinct_dict_set distinct_dict_del)
  have pre: "distinct (map fst up)" "distinct (map snd up)"
    "set (map fst up) \<inter> set (map snd up) = {}"
    using Cons.prems(1-3) by (auto simp: ps)
  have sup: "\<forall>s' \<in> set (map snd up). s' \<in> dom (map_of ?kw1)"
    using Cons.prems(2,4) by (auto simp: ps m1)
  from Cons.IH [OF pre sup d1] obtain kw'
    where r: "rename_upstream up ?kw1 = Inr kw'" and dk: "distinct (keys kw')"
      and mk: "\<And>k. map_of kw' k =
              (case map_of up k of
                 Some s' \<Rightarrow> map_of ?kw1 s'
               | None \<Rightarrow> if k \<in> set (map snd up) then None else map_of ?kw1 k)"
    by blast
  have step: "rename_upstream (ps # up) kw = Inr kw'"
    using v r by (simp add: ps dict_pop_def)
  have pn: "map_of up p = None" "p \<notin> set (map snd up)" "p \<noteq> s" "s \<notin> set (map snd up)"
    using Cons.prems(1-3) by (auto simp: ps map_of_eq_None_iff)
  have "map_of kw' k =
          (case map_of (ps # up) k of
             Some s' \<Rightarrow> map_of kw s'
           | None \<Rightarrow> if k \<in> set (map snd (ps # up)) then None else map_of kw k)" for k
  proof (cases "k = p")
    case True
    then show ?thesis using pn v by (simp add: mk m1 ps)
  next
    case False
    show ?thesis
    proof (cases "map_of up k")
      case None
      then show ?thesis using False by (simp add: mk m1 ps)
    next
      case (Some s')
      then have "(k, s') \<in> set up" by (rule map_of_SomeD)
      then have "s' \<in> set (map snd up)" "k \<in> set (map fst up)" by force+
      then have "s' \<noteq> s" "s' \<noteq> p" using pn Cons.prems(3) by (auto simp: ps)
      then show ?thesis using False Some by (simp add: mk m1 ps)
    qed
  qed
  with step dk show ?case by blast
qed

lemma parameterize_roundtrip:
  assumes node: "parameterize_node self node' fn out m = Inr n"
    and dm: "distinct (keys m)" and dk: "distinct (keys kwargs)"
    and ds: "distinct (map snd (upstream_sources m))"
    and disj: "set (keys (upstream_sources m)) \<inter> set (map snd (upstream_sources m)) = {}"
    and supplied: "\<forall>s \<in> set (map snd (upstream_sources m)). s \<in> set (keys kwargs)"
    and res: "''upstream_dependencies'' \<notin> set (keys kwargs) \<union> set (keys m)"
      "''literal_dependencies'' \<notin> set (keys kwargs) \<union> set (keys m)"
  shows "\<exists>K. callable n args kwargs = callable node' args K \<and> distinct (keys K) \<and>
           (\<forall>k. map_of K k =
              (case map_of m k of
                 Some (LiteralDependency v) \<Rightarrow> Some v
               | Some (UpstreamDependency s) \<Rightarrow> map_of kwargs s
               | None \<Rightarrow>
                   if k \<in> set (map snd (upstream_sources m)) then None else map_of kwargs k))"
proof -
  let ?up = "upstream_sources m" and ?lit = "literal_values m"
  let ?kw0 = "dict_merge ?lit kwargs"
  have dl: "distinct (keys ?lit)" using dm by (rule distinct_literal_values)
  have du: "distinct (map fst ?up)"
    using distinct_upstream_sources [OF dm] by (simp add: keys_def)
  have m0: "map_of ?kw0 = map_of ?lit ++ map_of kwargs"
    using dk by (rule map_of_dict_merge)
  have d0: "distinct (keys ?kw0)" using dl by (rule distinct_dict_merge)
  have k0: "set (keys ?kw0) = set (keys ?lit) \<union> set (keys kwargs)"
    using dk by (rule keys_dict_merge)
  have nores: "''upstream_dependencies'' \<notin> set (keys ?kw0)"
    "''literal_dependencies'' \<notin> set (keys ?kw0)"
    using res keys_literal_values [of m] by (auto simp: k0)
  have sup: "\<forall>s \<in> set (map snd ?up). s \<in> dom (map_of ?kw0)"
    using supplied by (auto simp: keys_dom m0)
  have disj': "set (map fst ?up) \<inter> set (map snd ?up) = {}"
    using disj by (simp add: keys_def)
  from rename_upstream_map [OF du ds disj' sup d0] obtain kw'
    where r: "rename_upstream ?up ?kw0 = Inr kw'" and dk': "distinct (keys kw')"
      and mk: "\<And>k. map_of kw' k =
              (case map_of ?up k of
                 Some s \<Rightarrow> map_of ?kw0 s
               | None \<Rightarrow> if k \<in> set (map snd ?up) then None else map_of ?kw0 k)"
    by blast
  let ?K = "inject_literals ?lit kw'"
  have call: "callable n args kwargs = callable node' args ?K"
    using parameterize_node_fields(5) [OF node] nores r
    by (simp add: partial_def replacement_function_def)
  have dK: "distinct (keys ?K)"
    using dk' by (simp add: inject_literals_merge distinct_dict_merge)
  have mK: "map_of ?K = map_of kw' ++ map_of ?lit"
    using dl by (simp add: inject_literals_merge map_of_dict_merge)
  have "map_of ?K k =
          (case map_of m k of
             Some (LiteralDependency v) \<Rightarrow> Some v
           | Some (UpstreamDependency s) \<Rightarrow> map_of kwargs s
           | None \<Rightarrow> if k \<in> set (map snd ?up) then None else map_of kwargs k)" for k
  proof (cases "map_of m k")
    case None
    then have "map_of ?lit k = None" "map_of ?up k = None"
      by (simp_all add: map_of_literal_values [OF dm] map_of_upstream_sources [OF dm])
    then show ?thesis using None
      by (simp add: mK mk m0 map_add_def split: option.splits)
  next
    case (Some d)
    show ?thesis
    proof (cases d)
      case (LiteralDependency v)
      then have "map_of ?lit k = Some v"
        using Some by (simp add: map_of_literal_values [OF dm])
      then show ?thesis using Some LiteralDependency by (simp add: mK map_add_def)
    next
      case (UpstreamDependency s)
      then have l: "map_of ?lit k = None" and u: "map_of ?up k = Some s"
        using Some by (simp_all add: map_of_literal_values [OF dm] map_of_upstream_sources [OF dm])
      from u have "(k, s) \<in> set ?up" by (rule map_of_SomeD)
      then have "s \<in> set (map snd ?up)" by force
      then have "s \<in> dom (map_of kwargs)" using supplied by (auto simp: keys_dom)
      then have "map_of ?kw0 s = map_of kwargs s" by (auto simp: m0 map_add_def)
      then show ?thesis using Some UpstreamDependency l u by (simp add: mK mk map_add_def)
    qed
  qed
  with call dK show ?thesis by blast
qed

text \<open>
  The example of the specification: \<^verbatim>\<open>f(a, b)\<close> parameterized with
  \<^verbatim>\<open>out1={a: value(1), b: source("n2")}\<close> gives a node that requires the input \<^verbatim>\<open>n2\<close>, and
  calling it with \<^verbatim>\<open>n2=5\<close> gives \<^verbatim>\<open>f(1, 5)\<close>.
\<close>

lemma parameterize_example_roundtrip:
  "map_sum id (map (\<lambda>n. (name n, input_types n, callable n [] [(''n2'', PInt 5)])))
     (parameterize_expand_node
        \<lparr>parametrization =
           [(''out1'', [(''a'', LiteralDependency (PInt 1)), (''b'', UpstreamDependency ''n2'')])],
         specified_docstrings = []\<rparr>
        example_node [] example_fn) =
     Inr [(''out1'', [(''n2'', TStr)], Inr (PInt 6))] \<and>
   example_f [PInt 1, PInt 5] [] = Inr (PInt 6)"
  by (simp add: example_eval call_eval)

text \<open>
  Claim C1 at a parameterization that passes \<^verbatim>\<open>validate\<close> and binds two parameters to the
  same upstream node, \<^verbatim>\<open>out={a: source("n"), b: source("n")}\<close>. The node declares the one
  input \<^verbatim>\<open>n\<close>; called with \<^verbatim>\<open>n=5\<close>, \<^verbatim>\<open>replacement_function\<close> pops \<^verbatim>\<open>n\<close> for \<^verbatim>\<open>a\<close> and
  raises KeyError when it pops \<^verbatim>\<open>n\<close> again for \<^verbatim>\<open>b\<close>, whereas \<^verbatim>\<open>f(a=5, b=5)\<close> returns 10.
\<close>

theorem parameterize_same_source_twice:
  "parameterize_validate
     \<lparr>parametrization =
        [(''out'', [(''a'', UpstreamDependency ''n''), (''b'', UpstreamDependency ''n'')])],
      specified_docstrings = []\<rparr> example_fn = Inr () \<and>
   map_sum id (map (\<lambda>n. (name n, input_types n, callable n [] [(''n'', PInt 5)])))
     (parameterize_expand_node
        \<lparr>parametrization =
           [(''out'', [(''a'', UpstreamDependency ''n''), (''b'', UpstreamDependency ''n'')])],
         specified_docstrings = []\<rparr>
        example_node [] example_fn) =
     Inr [(''out'', [(''n'', TStr)], Inl (KeyError (PStr ''n'')))] \<and>
   example_f [] [(''a'', PInt 5), (''b'', PInt 5)] = Inr (PInt 10)"
  by (simp add: example_eval call_eval)

section \<open>Column reassignment in \<^verbatim>\<open>parameterize_extract_columns\<close>\<close>

text \<open>
  \<^verbatim>\<open>parameterize.expand_node\<close> reads only the docstring of the function it is given, and
  \<^verbatim>\<open>wrapper_fn\<close> has the docstring of the function it wraps: the nodes do not depend on
  \<^verbatim>\<open>reassign_columns\<close>.
\<close>

lemma parameterize_nodes_doc_only:
  assumes "fn_doc fn1 = fn_doc fn2"
  shows "parameterize_nodes self node' fn1 ps = parameterize_nodes self node' fn2 ps"
proof (induction ps)
  case Nil
  show ?case by simp
next
  case (Cons om ps)
  obtain out m where om: "om = (out, m)" by (cases om)
  have "parameterize_node self node' fn1 out m = parameterize_node self node' fn2 out m"
    using assms by (simp add: parameterize_node_def)
  then show ?case by (simp add: om Cons.IH cong: sum.case_cong)
qed

lemma reassign_columns_no_effect:
  "parameterize_extract_columns_expand_node (self\<lparr>reassign_columns := b\<rparr>) node' config fn =
   parameterize_extract_columns_expand_node self node' config fn"
proof -
  have doc: "parameterize_expand_node d nd cfg (fn\<lparr>fn_call := w\<rparr>) =
             parameterize_expand_node d nd cfg fn" for d nd cfg w
    unfolding parameterize_expand_node_def
    by (rule parameterize_nodes_doc_only) simp
  have one: "extract_record (self\<lparr>reassign_columns := b\<rparr>) node' config fn i r =
             extract_record self node' config fn i r" for i r
    by (simp add: extract_record_def Let_def doc cong: sum.case_cong)
  have "extract_records (self\<lparr>reassign_columns := b\<rparr>) node' config fn i rs =
        extract_records self node' config fn i rs" for i rs
    by (induction rs arbitrary: i) (simp_all add: one cong: sum.case_cong)
  then show ?thesis by (simp add: parameterize_extract_columns_expand_node_def)
qed

text \<open>
  Claim C4 with \<^verbatim>\<open>reassign_columns=False\<close>, one record with the outputs \<^verbatim>\<open>("x", "y")\<close> and a
  function that returns a table with the columns \<^verbatim>\<open>a\<close> and \<^verbatim>\<open>b\<close>. The intermediate node is
  always built with \<^verbatim>\<open>wrapper_fn\<close> as its callable, and \<^verbatim>\<open>parameterize.expand_node\<close> calls the
  callable of the node, not \<^verbatim>\<open>fn_to_call\<close>: the table of the node \<^verbatim>\<open>df__0\<close> has the columns
  \<^verbatim>\<open>x\<close> and \<^verbatim>\<open>y\<close>, not those the function produced.
\<close>

theorem reassign_columns_disabled:
  "map_sum id (\<lambda>ns. (map name ns, callable (hd ns) [] []))
     (parameterize_extract_columns_expand_node
        \<lparr>extract_config = [\<lparr>outputs = [''x'', ''y''], input_mapping = []\<rparr>],
         reassign_columns = False\<rparr>
        example_table_node [] example_table_fn) =
     Inr ([''df__0'', ''x'', ''y''],
          Inr (PFrame 1 [(PStr ''x'', [PInt 1]), (PStr ''y'', [PInt 2])])) \<and>
   fn_call example_table_fn [] [] = Inr (PFrame 1 [(PStr ''a'', [PInt 1]), (PStr ''b'', [PInt 2])])"
  by (simp add: extract_eval example_eval call_eval str_nat_zero)

section \<open>Filling absent columns\<close>

text \<open>
  With a fill value, \<^verbatim>\<open>df_generator\<close> appends one column, filled with the value in every
  row, for every declaration that is not a column label of the table, under the
  declaration itself as label; the columns the table has are left as they are.
\<close>

lemma dict_set_absent: "k \<notin> set (keys d) \<Longrightarrow> dict_set d k v = d @ [(k, v)]"
  by (induction d) (auto simp: keys_def)

lemma fill_columns_frame:
  assumes "\<forall>c \<in> set cs. hashable c"
  shows "\<exists>extra. fill_columns fill cs (PFrame n cols) = Inr (PFrame n (cols @ extra)) \<and>
           set (keys extra) = set cs - set (keys cols) \<and>
           (\<forall>(label, cells) \<in> set extra. cells = replicate n fill)"
  using assms
proof (induction cs arbitrary: cols)
  case Nil
  then show ?case by (simp add: keys_def)
next
  case (Cons c cs)
  then have hc: "hashable c" and hcs: "\<forall>c \<in> set cs. hashable c" by simp_all
  show ?case
  proof (cases "c \<in> set (keys cols)")
    case True
    from Cons.IH [OF hcs, of cols] obtain extra
      where "fill_columns fill cs (PFrame n cols) = Inr (PFrame n (cols @ extra))"
        "set (keys extra) = set cs - set (keys cols)"
        "\<forall>(label, cells) \<in> set extra. cells = replicate n fill" by blast
    then show ?thesis using True hc by (intro exI [of _ extra]) auto
  next
    case False
    let ?cols = "cols @ [(c, replicate n fill)]"
    from Cons.IH [OF hcs, of ?cols] obtain extra
      where e: "fill_columns fill cs (PFrame n ?cols) = Inr (PFrame n (?cols @ extra))"
        "set (keys extra) = set cs - set (keys ?cols)"
        "\<forall>(label, cells) \<in> set extra. cells = replicate n fill" by blast
    have "fill_columns fill (c # cs) (PFrame n cols) = Inr (PFrame n (cols @ (c, replicate n fill) # extra))"
      using False hc e(1) by (simp add: dict_set_absent keys_def)
    moreover have "set (keys ((c, replicate n fill) # extra)) = set (c # cs) - set (keys cols)"
      using False e(2) by (auto simp: keys_def)
    moreover have "\<forall>(label, cells) \<in> set ((c, replicate n fill) # extra). cells = replicate n fill"
      using e(3) by simp
    ultimately show ?thesis by blast
  qed
qed

lemma df_generator_fills:
  assumes "fn args kwargs = Inr (PFrame n cols)"
    and "extract_columns.fill_with self \<noteq> PNone"
    and "\<forall>c \<in> set (columns self). hashable c"
  shows "\<exists>extra. df_generator self fn args kwargs = Inr (PFrame n (cols @ extra)) \<and>
           set (keys extra) = set (columns self) - set (keys cols) \<and>
           (\<forall>(label, cells) \<in> set extra. cells = replicate n (extract_columns.fill_with self))"
  using assms fill_columns_frame [of "columns self" "extract_columns.fill_with self" n cols]
  by (simp add: df_generator_def)

text \<open>
  With a fill value and bare names, the container node adds the absent column and its
  extractor returns it.
\<close>

lemma fill_with_bare_declaration:
  "map_sum id (\<lambda>ns. (map name ns, callable (hd ns) [] [],
       callable (ns ! 2) []
         [(''df'', PFrame 2 [(PStr ''c1'', [PInt 1, PInt 2]), (PStr ''c2'', [PInt 0, PInt 0])])]))
     (extract_columns_expand_node
        \<lparr>columns = [PStr ''c1'', PStr ''c2''], fill_with = PInt 0\<rparr>
        example_c1_node []) =
     Inr ([''df'', ''c1'', ''c2''],
          Inr (PFrame 2 [(PStr ''c1'', [PInt 1, PInt 2]), (PStr ''c2'', [PInt 0, PInt 0])]),
          Inr (PSeries [PInt 0, PInt 0]))"
  by (simp add: extract_eval example_eval call_eval numeral_2_eq_2)

text \<open>
  Claim C6 at \<^verbatim>\<open>extract_columns("c1", ("c2", "doc2"), fill_with=0)\<close> and a function that returns
  a table with the column \<^verbatim>\<open>c1\<close> only. \<^verbatim>\<open>df_generator\<close> iterates over the declarations
  without unpacking the pair, as the loop that builds the extractor nodes does: it adds a
  column labelled by the tuple \<^verbatim>\<open>("c2", "doc2")\<close>, the column \<^verbatim>\<open>c2\<close> stays absent, and the
  extractor of \<^verbatim>\<open>c2\<close> raises on the table the container node returns.
\<close>

theorem fill_with_pair_declaration:
  "map_sum id (\<lambda>ns. (map name ns, callable (hd ns) [] [],
       callable (ns ! 2) []
         [(''df'', PFrame 2 [(PStr ''c1'', [PInt 1, PInt 2]),
                             (PTuple [PStr ''c2'', PStr ''doc2''], [PInt 0, PInt 0])])]))
     (extract_columns_expand_node
        \<lparr>columns = [PStr ''c1'', PTuple [PStr ''c2'', PStr ''doc2'']], fill_with = PInt 0\<rparr>
        example_c1_node []) =
     Inr ([''df'', ''c1'', ''c2''],
          Inr (PFrame 2 [(PStr ''c1'', [PInt 1, PInt 2]),
                         (PTuple [PStr ''c2'', PStr ''doc2''], [PInt 0, PInt 0])]),
          Inl (InvalidDecoratorException
                 [Text ''No such column: '', Interp (PStr ''c2''),
                  Text '' produced by '', Interp (PStr ''df''),
                  Text ''. It only produced '',
                  Interp (PIndex [PStr ''c1'', PTuple [PStr ''c2'', PStr ''doc2'']])]))"
  by (simp add: extract_eval example_eval call_eval numeral_2_eq_2)

end
